theory Spec2Isabelle
  imports Main "HOL-Library.Word"
begin

unbundle bit_operations_syntax

section \<open>Game: the 3x3 board (game.c)\<close>

text \<open>
  \<^verbatim>\<open>GAME_ROLE\<close> is the enumeration declared in game.h (not among the sources); its
  values are the three the code names. A piece is the C \<^verbatim>\<open>int\<close> stored in a cell:
  \<open>1\<close> for X (the first player), \<open>0\<close> for O, \<open>-1\<close> for an empty cell.
\<close>

datatype GAME_ROLE = NULL_ROLE | FIRST_PLAYER_ROLE | SECOND_PLAYER_ROLE

text \<open>
  \<^verbatim>\<open>struct game\<close>. The array \<^verbatim>\<open>int game_board[9]\<close> is a list of nine cells, the
  flag \<^verbatim>\<open>isOver\<close> stays a C integer (zero is false), \<^verbatim>\<open>count\<close> is the reference
  count (field \<open>game_count\<close>). The mutex fields carry no data.
\<close>

record GAME =
  game_board :: "int list"
  isOver :: int
  winner :: GAME_ROLE
  game_count :: int
  expectedPiece :: int

text \<open>\<^verbatim>\<open>struct game_move\<close>.\<close>

record GAME_MOVE =
  piece :: int
  placement :: int

text \<open>
  \<^verbatim>\<open>game_create\<close>: every cell \<open>-1\<close>, not over, no winner, X expected; the reference
  count is 0 and then raised to 1 by \<^verbatim>\<open>game_ref\<close>.
\<close>

definition game_ref :: "GAME \<Rightarrow> GAME" where
  "game_ref game = game\<lparr>game_count := game_count game + 1\<rparr>"

definition game_create :: GAME where
  "game_create =
     game_ref \<lparr>game_board = replicate 9 (- 1), isOver = 0, winner = NULL_ROLE,
               game_count = 0, expectedPiece = 1\<rparr>"

text \<open>
  The test the code makes on a line of three cells:
  \<^verbatim>\<open>b[i] != -1\<close> and then \<^verbatim>\<open>b[i] == b[j] && b[j] == b[k]\<close>.
\<close>

definition three_equal :: "int list \<Rightarrow> nat \<Rightarrow> nat \<Rightarrow> nat \<Rightarrow> bool" where
  "three_equal b i j k = (b ! i \<noteq> - 1 \<and> b ! i = b ! j \<and> b ! j = b ! k)"

text \<open>The winner recorded for a line whose first cell holds piece \<open>p\<close>.\<close>

definition role_of_piece :: "int \<Rightarrow> GAME_ROLE" where
  "role_of_piece p = (if p = 1 then FIRST_PLAYER_ROLE else SECOND_PLAYER_ROLE)"

definition set_winner :: "GAME \<Rightarrow> nat \<Rightarrow> GAME" where
  "set_winner game i = game\<lparr>isOver := 1, winner := role_of_piece (game_board game ! i)\<rparr>"

text \<open>
  The loop \<^verbatim>\<open>for (i = 0, j = 0; i < 7 && j < 3; i += 3, j++)\<close> of
  \<^verbatim>\<open>game_apply_move\<close>: row \<open>i, i+1, i+2\<close> first, then column \<open>j, j+3, j+6\<close>,
  leaving the loop at the first line found.
\<close>

function line_loop :: "GAME \<Rightarrow> nat \<Rightarrow> nat \<Rightarrow> GAME" where
  "line_loop game i j =
     (if i < 7 \<and> j < 3 then
        (if three_equal (game_board game) i (i + 1) (i + 2) then set_winner game i
         else if three_equal (game_board game) j (j + 3) (j + 6) then set_winner game j
         else line_loop game (i + 3) (j + 1))
      else game)"
  by pat_completeness auto
termination
  by (relation "measure (\<lambda>(game, i, j). 3 - j)") auto

declare line_loop.simps [simp del]

text \<open>
  The loop that computes \<^verbatim>\<open>cleared\<close>: it starts at 1 and falls to 0 at any empty cell
  among the nine.
\<close>

fun cleared_loop :: "int list \<Rightarrow> int \<Rightarrow> int" where
  "cleared_loop [] cleared = cleared"
| "cleared_loop (c # cs) cleared = cleared_loop cs (if c = - 1 then 0 else cleared)"

text \<open>
  The part of \<^verbatim>\<open>game_apply_move\<close> that follows the placement of the piece: the two
  diagonals (each returning at once), the loop over rows and columns, and the test for
  a full board, made only when no line has ended the game.
\<close>

definition check_end :: "GAME \<Rightarrow> GAME" where
  "check_end game =
     (if three_equal (game_board game) 0 4 8 then set_winner game 0
      else if three_equal (game_board game) 2 4 6 then set_winner game 2
      else
        let g2 = line_loop game 0 0
        in if isOver g2 = 0 \<and> cleared_loop (take 9 (game_board g2)) 1 \<noteq> 0
           then g2\<lparr>isOver := 1, winner := NULL_ROLE\<rparr>
           else g2)"

text \<open>
  \<^verbatim>\<open>game_apply_move\<close>. The result is \<open>None\<close> where the C code indexes
  \<^verbatim>\<open>game_board\<close> outside \<open>0..8\<close> (undefined behaviour: the code makes no range check
  on \<^verbatim>\<open>move->placement\<close>); otherwise it is the returned integer and the game after the
  call. The \<^verbatim>\<open>||\<close> chain is evaluated left to right, so a finished game is refused before
  the board is read.
\<close>

definition game_apply_move :: "GAME \<Rightarrow> GAME_MOVE \<Rightarrow> (int \<times> GAME) option" where
  "game_apply_move game move =
     (if isOver game \<noteq> 0 then Some (- 1, game)
      else if placement move - 1 < 0 \<or> 9 \<le> placement move - 1 then None
      else if game_board game ! nat (placement move - 1) \<noteq> - 1
              \<or> expectedPiece game \<noteq> piece move then Some (- 1, game)
      else Some (0, check_end
             (game\<lparr>game_board := (game_board game)[nat (placement move - 1) := piece move],
                    expectedPiece := 1 - expectedPiece game\<rparr>)))"

text \<open>
  \<^verbatim>\<open>game_resign\<close>: refused on a finished game; otherwise the second player wins when
  the first resigns, and the first player wins for any other \<open>role\<close>.
\<close>

definition game_resign :: "GAME \<Rightarrow> GAME_ROLE \<Rightarrow> int \<times> GAME" where
  "game_resign game role =
     (if isOver game \<noteq> 0 then (- 1, game)
      else (0, game\<lparr>isOver := 1,
                     winner := (if role = FIRST_PLAYER_ROLE then SECOND_PLAYER_ROLE
                                else FIRST_PLAYER_ROLE)\<rparr>))"

definition game_is_over :: "GAME \<Rightarrow> int" where
  "game_is_over game = isOver game"

definition game_get_winner :: "GAME \<Rightarrow> GAME_ROLE" where
  "game_get_winner game = winner game"

subsection \<open>Sequences of calls on a game\<close>

text \<open>
  A caller holds a game and calls \<^verbatim>\<open>game_apply_move\<close> and \<^verbatim>\<open>game_resign\<close> on it in
  some order. \<open>game_calls\<close> makes every call of the list and collects the returned
  integers; \<open>game_run\<close> is the run in which every call succeeds (returns 0), and is
  \<open>None\<close> as soon as one call is refused or undefined.
\<close>

datatype game_op = Move GAME_MOVE | Resign GAME_ROLE

fun game_step :: "GAME \<Rightarrow> game_op \<Rightarrow> (int \<times> GAME) option" where
  "game_step game (Move m) = game_apply_move game m"
| "game_step game (Resign r) = Some (game_resign game r)"

fun game_calls :: "GAME \<Rightarrow> game_op list \<Rightarrow> (int list \<times> GAME) option" where
  "game_calls game [] = Some ([], game)"
| "game_calls game (op # ops) =
     (case game_step game op of
        None \<Rightarrow> None
      | Some (r, game') \<Rightarrow>
          (case game_calls game' ops of
             None \<Rightarrow> None
           | Some (rs, game'') \<Rightarrow> Some (r # rs, game'')))"

fun game_run :: "GAME \<Rightarrow> game_op list \<Rightarrow> GAME option" where
  "game_run game [] = Some game"
| "game_run game (op # ops) =
     (case game_step game op of
        Some (r, game') \<Rightarrow> (if r = 0 then game_run game' ops else None)
      | None \<Rightarrow> None)"

text \<open>
  The eight winning lines of the board, by cell index, and the property "three equal
  pieces on one of them" (an empty cell is not a piece).
\<close>

definition win_lines :: "(nat \<times> nat \<times> nat) list" where
  "win_lines =
     [(0, 1, 2), (3, 4, 5), (6, 7, 8), (0, 3, 6), (1, 4, 7), (2, 5, 8), (0, 4, 8), (2, 4, 6)]"

definition has_line :: "int list \<Rightarrow> bool" where
  "has_line b =
     list_ex (\<lambda>(i, j, k). b ! i \<noteq> - 1 \<and> b ! i = b ! j \<and> b ! j = b ! k) win_lines"

text \<open>The number of X pieces on a board minus the number of O pieces.\<close>

definition piece_diff :: "int list \<Rightarrow> int" where
  "piece_diff b = int (count_list b 1) - int (count_list b 0)"

text \<open>Invariants of the reachable games, used in the proofs below.\<close>

definition winner_inv :: "GAME \<Rightarrow> bool" where
  "winner_inv g \<longleftrightarrow>
     (isOver g = 0 \<longrightarrow> winner g = NULL_ROLE) \<and>
     (has_line (game_board g) \<longrightarrow> winner g \<noteq> NULL_ROLE)"

definition winner_inv_moves :: "GAME \<Rightarrow> bool" where
  "winner_inv_moves g \<longleftrightarrow>
     (isOver g = 0 \<longrightarrow> winner g = NULL_ROLE) \<and>
     (has_line (game_board g) \<longleftrightarrow> winner g \<noteq> NULL_ROLE)"

definition turn_inv :: "GAME \<Rightarrow> bool" where
  "turn_inv g \<longleftrightarrow> length (game_board g) = 9 \<and>
     ((expectedPiece g = 1 \<and> piece_diff (game_board g) = 0) \<or>
      (expectedPiece g = 0 \<and> piece_diff (game_board g) = 1))"

subsection \<open>Move text (game.c)\<close>

text \<open>
  A C string is given by its characters before the terminating NUL. \<open>c_char\<close> is the
  value of a \<^verbatim>\<open>char\<close> converted to \<^verbatim>\<open>int\<close> (a signed 8-bit \<^verbatim>\<open>char\<close>), and
  \<open>c_str_first\<close> is \<^verbatim>\<open>str[0]\<close>, the terminator itself when the string is empty.
  \<open>c_string\<close> reads a buffer as a string: it stops at the first NUL.
\<close>

definition c_char :: "char \<Rightarrow> int" where
  "c_char c = (if (of_char c :: int) < 128 then of_char c else of_char c - 256)"

definition c_str_first :: "string \<Rightarrow> int" where
  "c_str_first str = (case str of [] \<Rightarrow> 0 | c # cs \<Rightarrow> c_char c)"

definition c_string :: "string \<Rightarrow> string" where
  "c_string buf = takeWhile (\<lambda>c. c \<noteq> CHR 0x00) buf"

text \<open>
  The loop \<^verbatim>\<open>for (i = 1; i < strlen(str); i++)\<close> of \<^verbatim>\<open>game_parse_move\<close>, run on the
  characters from index 1 on: the first of \<^verbatim>\<open>x X o O\<close> decides the piece, and the
  piece stays -1 when there is none.
\<close>

fun piece_loop :: "string \<Rightarrow> int" where
  "piece_loop [] = - 1"
| "piece_loop (c # cs) =
     (if c = CHR ''x'' \<or> c = CHR ''X'' then 1
      else if c = CHR ''o'' \<or> c = CHR ''O'' then 0
      else piece_loop cs)"

text \<open>
  \<^verbatim>\<open>game_parse_move\<close>; \<open>None\<close> is the \<^verbatim>\<open>NULL\<close> result. The game and the role are
  parameters of the C function that its body never reads. The range test is the one
  of the source, \<^verbatim>\<open>placement <= 0 && placement >= 10\<close>.
\<close>

definition game_parse_move :: "GAME \<Rightarrow> GAME_ROLE \<Rightarrow> string \<Rightarrow> GAME_MOVE option" where
  "game_parse_move game role str =
     (let placement = c_str_first str - 48
      in if placement \<le> 0 \<and> placement \<ge> 10 then None
         else
           let piece = piece_loop (drop 1 str)
           in if piece = - 1 then None
              else Some \<lparr>piece = piece, placement = placement\<rparr>)"

text \<open>
  \<^verbatim>\<open>game_unparse_move\<close>: a zeroed buffer of five bytes receives the digit
  (\<^verbatim>\<open>placement + 48\<close>, converted to \<^verbatim>\<open>char\<close>), \<^verbatim>\<open>->\<close> and the piece letter.
\<close>

definition game_unparse_move :: "GAME_MOVE \<Rightarrow> string" where
  "game_unparse_move move =
     c_string [char_of (placement move + 48), CHR ''-'', CHR ''>'',
               (if piece move = 1 then CHR ''X'' else CHR ''O''), CHR 0x00]"

section \<open>Invitation (invitation.c)\<close>

text \<open>
  \<^verbatim>\<open>INVITATION_STATE\<close> is the enumeration declared in invitation.h (not among the
  sources); its values are the three the code names. In \<^verbatim>\<open>struct invitation\<close> the two
  clients are pointers, kept here as addresses; the game pointer is \<open>None\<close> for
  \<^verbatim>\<open>NULL\<close> and otherwise holds the game it points to. The fields carry the prefix
  \<open>inv_\<close>; \<open>inv_count\<close> is the reference count.
\<close>

datatype INVITATION_STATE = INV_OPEN_STATE | INV_ACCEPTED_STATE | INV_CLOSED_STATE

record INVITATION =
  inv_source :: nat
  inv_source_role :: GAME_ROLE
  inv_target :: nat
  inv_target_role :: GAME_ROLE
  inv_state :: INVITATION_STATE
  inv_game :: "GAME option"
  inv_count :: int

text \<open>
  \<^verbatim>\<open>inv_create\<close>: \<^verbatim>\<open>NULL\<close> when source and target are the same client; otherwise an
  open invitation without a game, its count raised from 0 to 1 by \<^verbatim>\<open>inv_ref\<close>. (The
  reference counts of the two clients, raised as well, live in the clients.)
\<close>

definition inv_ref :: "INVITATION \<Rightarrow> INVITATION" where
  "inv_ref invitation = invitation\<lparr>inv_count := inv_count invitation + 1\<rparr>"

definition inv_create :: "nat \<Rightarrow> nat \<Rightarrow> GAME_ROLE \<Rightarrow> GAME_ROLE \<Rightarrow> INVITATION option" where
  "inv_create source target source_role target_role =
     (if source = target then None
      else Some (inv_ref \<lparr>inv_source = source, inv_source_role = source_role,
                          inv_target = target, inv_target_role = target_role,
                          inv_state = INV_OPEN_STATE, inv_game = None, inv_count = 0\<rparr>))"

definition inv_get_game :: "INVITATION \<Rightarrow> GAME option" where
  "inv_get_game invitation = inv_game invitation"

text \<open>\<^verbatim>\<open>inv_accept\<close>: the returned integer and the invitation after the call.\<close>

definition inv_accept :: "INVITATION \<Rightarrow> int \<times> INVITATION" where
  "inv_accept invitation =
     (if inv_state invitation \<noteq> INV_OPEN_STATE then (- 1, invitation)
      else (0, invitation\<lparr>inv_state := INV_ACCEPTED_STATE, inv_game := Some game_create\<rparr>))"

text \<open>
  \<^verbatim>\<open>inv_close\<close>. After the test of the state the code looks only at the game pointer:
  no game, or a finished game, closes the invitation; a game in progress is resigned
  for \<open>role\<close>, unless \<open>role\<close> is \<^verbatim>\<open>NULL_ROLE\<close>, which is refused.
\<close>

definition inv_close :: "INVITATION \<Rightarrow> GAME_ROLE \<Rightarrow> int \<times> INVITATION" where
  "inv_close invitation role =
     (if inv_state invitation \<noteq> INV_OPEN_STATE \<and> inv_state invitation \<noteq> INV_ACCEPTED_STATE
      then (- 1, invitation)
      else
        (case inv_game invitation of
           None \<Rightarrow> (0, invitation\<lparr>inv_state := INV_CLOSED_STATE\<rparr>)
         | Some g \<Rightarrow>
             if game_is_over g \<noteq> 0 then (0, invitation\<lparr>inv_state := INV_CLOSED_STATE\<rparr>)
             else if role = NULL_ROLE then (- 1, invitation)
             else (0, invitation\<lparr>inv_game := Some (snd (game_resign g role)),
                           inv_state := INV_CLOSED_STATE\<rparr>)))"

subsection \<open>The life of an invitation\<close>

text \<open>
  What can happen to an invitation after \<^verbatim>\<open>inv_create\<close>: calls of \<^verbatim>\<open>inv_accept\<close> and
  \<^verbatim>\<open>inv_close\<close>, whatever they return, and calls of \<^verbatim>\<open>game_apply_move\<close> and
  \<^verbatim>\<open>game_resign\<close> on the game obtained through \<^verbatim>\<open>inv_get_game\<close>. A run is \<open>None\<close> only
  when a move is undefined.
\<close>

datatype inv_op = Accept | Close GAME_ROLE | OnGame game_op

fun inv_step :: "INVITATION \<Rightarrow> inv_op \<Rightarrow> INVITATION option" where
  "inv_step invitation Accept = Some (snd (inv_accept invitation))"
| "inv_step invitation (Close role) = Some (snd (inv_close invitation role))"
| "inv_step invitation (OnGame op) =
     (case inv_get_game invitation of
        None \<Rightarrow> Some invitation
      | Some g \<Rightarrow>
          (case game_step g op of
             None \<Rightarrow> None
           | Some (r, g') \<Rightarrow> Some (invitation\<lparr>inv_game := Some g'\<rparr>)))"

fun inv_run :: "INVITATION \<Rightarrow> inv_op list \<Rightarrow> INVITATION option" where
  "inv_run invitation [] = Some invitation"
| "inv_run invitation (op # ops) =
     (case inv_step invitation op of None \<Rightarrow> None | Some invitation' \<Rightarrow> inv_run invitation' ops)"

text \<open>
  The state machine in the words of the specification. Accepting is allowed from
  OPEN only: it moves to ACCEPTED and creates the game. Closing from OPEN succeeds
  with any role. Closing from ACCEPTED with no role succeeds only if the game is
  already over; with a role it succeeds and the game is resigned for that role.
  Every other event is refused with -1 and changes nothing.
\<close>

definition spec_game_over :: "INVITATION \<Rightarrow> bool" where
  "spec_game_over invitation = (case inv_game invitation of None \<Rightarrow> False | Some g \<Rightarrow> isOver g \<noteq> 0)"

definition spec_accept :: "INVITATION \<Rightarrow> int \<times> INVITATION" where
  "spec_accept invitation =
     (case inv_state invitation of
        INV_OPEN_STATE \<Rightarrow> (0, invitation\<lparr>inv_state := INV_ACCEPTED_STATE, inv_game := Some game_create\<rparr>)
      | INV_ACCEPTED_STATE \<Rightarrow> (- 1, invitation)
      | INV_CLOSED_STATE \<Rightarrow> (- 1, invitation))"

definition spec_close :: "INVITATION \<Rightarrow> GAME_ROLE \<Rightarrow> int \<times> INVITATION" where
  "spec_close invitation role =
     (case inv_state invitation of
        INV_OPEN_STATE \<Rightarrow> (0, invitation\<lparr>inv_state := INV_CLOSED_STATE\<rparr>)
      | INV_ACCEPTED_STATE \<Rightarrow>
          (if role = NULL_ROLE
           then (if spec_game_over invitation then (0, invitation\<lparr>inv_state := INV_CLOSED_STATE\<rparr>)
                 else (- 1, invitation))
           else (0, invitation\<lparr>inv_game := map_option (\<lambda>g. snd (game_resign g role)) (inv_game invitation),
                         inv_state := INV_CLOSED_STATE\<rparr>))
      | INV_CLOSED_STATE \<Rightarrow> (- 1, invitation))"

text \<open>The invariant of a live invitation: a game exists exactly from acceptance on.\<close>

definition inv_wf :: "INVITATION \<Rightarrow> bool" where
  "inv_wf invitation \<longleftrightarrow>
     (inv_state invitation = INV_OPEN_STATE \<longrightarrow> inv_game invitation = None) \<and>
     (inv_state invitation = INV_ACCEPTED_STATE \<longrightarrow> inv_game invitation \<noteq> None)"

section \<open>Packets on a connection (protocol.c)\<close>

subsection \<open>Bytes, byte order and the header\<close>

text \<open>
  Bytes are 8-bit words. A multi-byte field is read and written in the byte order of
  the host, which is a parameter; \<^verbatim>\<open>ntohs\<close>, \<^verbatim>\<open>htons\<close>, \<^verbatim>\<open>ntohl\<close> and \<^verbatim>\<open>htonl\<close> swap
  the bytes on a little-endian host and do nothing on a big-endian one. Field values
  are natural numbers below \<open>2^16\<close> and \<open>2^32\<close>.
\<close>

type_synonym u8 = "8 word"

datatype byte_order = LittleEndian | BigEndian

definition load16 :: "byte_order \<Rightarrow> u8 list \<Rightarrow> nat \<Rightarrow> nat" where
  "load16 host mem off =
     (case host of
        LittleEndian \<Rightarrow> unat (mem ! off) + 256 * unat (mem ! (off + 1))
      | BigEndian \<Rightarrow> 256 * unat (mem ! off) + unat (mem ! (off + 1)))"

definition store16 :: "byte_order \<Rightarrow> u8 list \<Rightarrow> nat \<Rightarrow> nat \<Rightarrow> u8 list" where
  "store16 host mem off v =
     (case host of
        LittleEndian \<Rightarrow> mem[off := of_nat (v mod 256), off + 1 := of_nat (v div 256 mod 256)]
      | BigEndian \<Rightarrow> mem[off := of_nat (v div 256 mod 256), off + 1 := of_nat (v mod 256)])"

definition load32 :: "byte_order \<Rightarrow> u8 list \<Rightarrow> nat \<Rightarrow> nat" where
  "load32 host mem off =
     (case host of
        LittleEndian \<Rightarrow> unat (mem ! off) + 256 * unat (mem ! (off + 1))
                         + 65536 * unat (mem ! (off + 2)) + 16777216 * unat (mem ! (off + 3))
      | BigEndian \<Rightarrow> 16777216 * unat (mem ! off) + 65536 * unat (mem ! (off + 1))
                      + 256 * unat (mem ! (off + 2)) + unat (mem ! (off + 3)))"

definition store32 :: "byte_order \<Rightarrow> u8 list \<Rightarrow> nat \<Rightarrow> nat \<Rightarrow> u8 list" where
  "store32 host mem off v =
     (case host of
        LittleEndian \<Rightarrow>
          mem[off := of_nat (v mod 256), off + 1 := of_nat (v div 256 mod 256),
              off + 2 := of_nat (v div 65536 mod 256), off + 3 := of_nat (v div 16777216 mod 256)]
      | BigEndian \<Rightarrow>
          mem[off := of_nat (v div 16777216 mod 256), off + 1 := of_nat (v div 65536 mod 256),
              off + 2 := of_nat (v div 256 mod 256), off + 3 := of_nat (v mod 256)])"

definition swap16 :: "nat \<Rightarrow> nat" where
  "swap16 v = 256 * (v mod 256) + v div 256 mod 256"

definition swap32 :: "nat \<Rightarrow> nat" where
  "swap32 v = 16777216 * (v mod 256) + 65536 * (v div 256 mod 256)
              + 256 * (v div 65536 mod 256) + v div 16777216 mod 256"

definition ntohs :: "byte_order \<Rightarrow> nat \<Rightarrow> nat" where
  "ntohs host v = (case host of LittleEndian \<Rightarrow> swap16 v | BigEndian \<Rightarrow> v)"

definition htons :: "byte_order \<Rightarrow> nat \<Rightarrow> nat" where
  "htons host v = (case host of LittleEndian \<Rightarrow> swap16 v | BigEndian \<Rightarrow> v)"

definition ntohl :: "byte_order \<Rightarrow> nat \<Rightarrow> nat" where
  "ntohl host v = (case host of LittleEndian \<Rightarrow> swap32 v | BigEndian \<Rightarrow> v)"

definition htonl :: "byte_order \<Rightarrow> nat \<Rightarrow> nat" where
  "htonl host v = (case host of LittleEndian \<Rightarrow> swap32 v | BigEndian \<Rightarrow> v)"

text \<open>
  Modelled from the spec: the layout of \<^verbatim>\<open>JEUX_PACKET_HEADER\<close>, which protocol.h
  declares and which is not among the sources. The header is its memory image of 16
  bytes: \<^verbatim>\<open>type\<close> at offset 0, \<^verbatim>\<open>id\<close> at 1, \<^verbatim>\<open>role\<close> at 2, \<^verbatim>\<open>size\<close> (16 bits) at
  4, \<^verbatim>\<open>timestamp_sec\<close> and \<^verbatim>\<open>timestamp_nsec\<close> (32 bits each) at 8 and 12; the other
  bytes are padding. The packet type codes of protocol.h (\<^verbatim>\<open>JEUX_ACK_PKT\<close>,
  \<^verbatim>\<open>JEUX_NACK_PKT\<close>) are parameters of the functions that use them.
\<close>

type_synonym JEUX_PACKET_HEADER = "u8 list"

definition sizeof_hdr :: nat where
  "sizeof_hdr = 16"

definition hdr_type :: "JEUX_PACKET_HEADER \<Rightarrow> u8" where
  "hdr_type hdr = hdr ! 0"

definition hdr_id :: "JEUX_PACKET_HEADER \<Rightarrow> u8" where
  "hdr_id hdr = hdr ! 1"

definition hdr_role :: "JEUX_PACKET_HEADER \<Rightarrow> u8" where
  "hdr_role hdr = hdr ! 2"

definition hdr_size :: "byte_order \<Rightarrow> JEUX_PACKET_HEADER \<Rightarrow> nat" where
  "hdr_size host hdr = load16 host hdr 4"

definition hdr_timestamp_sec :: "byte_order \<Rightarrow> JEUX_PACKET_HEADER \<Rightarrow> nat" where
  "hdr_timestamp_sec host hdr = load32 host hdr 8"

definition hdr_timestamp_nsec :: "byte_order \<Rightarrow> JEUX_PACKET_HEADER \<Rightarrow> nat" where
  "hdr_timestamp_nsec host hdr = load32 host hdr 12"

definition set_type :: "JEUX_PACKET_HEADER \<Rightarrow> u8 \<Rightarrow> JEUX_PACKET_HEADER" where
  "set_type hdr v = hdr[0 := v]"

definition set_id :: "JEUX_PACKET_HEADER \<Rightarrow> u8 \<Rightarrow> JEUX_PACKET_HEADER" where
  "set_id hdr v = hdr[1 := v]"

definition set_role :: "JEUX_PACKET_HEADER \<Rightarrow> u8 \<Rightarrow> JEUX_PACKET_HEADER" where
  "set_role hdr v = hdr[2 := v]"

definition set_size :: "byte_order \<Rightarrow> JEUX_PACKET_HEADER \<Rightarrow> nat \<Rightarrow> JEUX_PACKET_HEADER" where
  "set_size host hdr v = store16 host hdr 4 v"

definition set_timestamp_sec :: "byte_order \<Rightarrow> JEUX_PACKET_HEADER \<Rightarrow> nat \<Rightarrow> JEUX_PACKET_HEADER" where
  "set_timestamp_sec host hdr v = store32 host hdr 8 v"

definition set_timestamp_nsec :: "byte_order \<Rightarrow> JEUX_PACKET_HEADER \<Rightarrow> nat \<Rightarrow> JEUX_PACKET_HEADER" where
  "set_timestamp_nsec host hdr v = store32 host hdr 12 v"

subsection \<open>The connection\<close>

text \<open>
  What a descriptor delivers is a list of events, one for each \<^verbatim>\<open>read\<close> call served:
  a failure (\<^verbatim>\<open>read\<close> returns -1) or the bytes that have arrived. \<^verbatim>\<open>read(fd, buf, n)\<close>
  returns at most \<open>n\<close> of them and leaves the others for the next call; when nothing
  is left the peer has closed and \<^verbatim>\<open>read\<close> returns 0. The result is the returned
  integer, the bytes stored and the events that remain.
\<close>

datatype rd_event = RdErr | RdData "u8 list"

fun read_fd :: "rd_event list \<Rightarrow> nat \<Rightarrow> int \<times> u8 list \<times> rd_event list" where
  "read_fd [] n = (0, [], [])"
| "read_fd (RdErr # rest) n = (- 1, [], rest)"
| "read_fd (RdData bs # rest) n =
     (if length bs \<le> n then (int (length bs), bs, rest)
      else (int n, take n bs, RdData (drop n bs) # rest))"

text \<open>
  In the other direction each \<^verbatim>\<open>write\<close> call is served by an event: a failure, or the
  number of bytes the connection takes at most (a short write when that is less than
  asked); with no event left the connection takes everything. The state is the
  events to come and the bytes sent so far.
\<close>

datatype wr_event = WrErr | WrAccept nat

type_synonym connection = "wr_event list \<times> u8 list"

fun write_fd :: "connection \<Rightarrow> u8 list \<Rightarrow> int \<times> connection" where
  "write_fd ([], sent) buf = (int (length buf), ([], sent @ buf))"
| "write_fd (WrErr # evs, sent) buf = (- 1, (evs, sent))"
| "write_fd (WrAccept k # evs, sent) buf = (int (min k (length buf)), (evs, sent @ take k buf))"

subsection \<open>Sending and receiving a packet\<close>

text \<open>
  \<^verbatim>\<open>proto_send_packet\<close>: one \<^verbatim>\<open>write\<close> of the header, and one of
  \<^verbatim>\<open>ntohs(hdr->size)\<close> payload bytes when that is positive and \<open>data\<close> is not
  \<^verbatim>\<open>NULL\<close>. The result is \<open>None\<close> where \<^verbatim>\<open>write\<close> would read past the end of the
  payload buffer.
\<close>

definition proto_send_packet ::
  "byte_order \<Rightarrow> connection \<Rightarrow> JEUX_PACKET_HEADER \<Rightarrow> u8 list option \<Rightarrow> (int \<times> connection) option"
where
  "proto_send_packet host fd hdr data =
     (let (returnedBytes, fd1) = write_fd fd (take sizeof_hdr hdr)
      in if returnedBytes = - 1 then Some (- 1, fd1)
         else
           (case data of
              None \<Rightarrow> Some (0, fd1)
            | Some payload \<Rightarrow>
                if ntohs host (hdr_size host hdr) > 0 then
                  (if length payload < ntohs host (hdr_size host hdr) then None
                   else
                     let (returnedBytes2, fd2) =
                           write_fd fd1 (take (ntohs host (hdr_size host hdr)) payload)
                     in if returnedBytes2 = - 1 then Some (- 1, fd2) else Some (0, fd2))
                else Some (0, fd1)))"

text \<open>
  \<^verbatim>\<open>proto_recv_packet\<close>. The three byte swaps are applied to the caller's header
  before anything is read (\<open>swap_fields\<close>); \<^verbatim>\<open>read\<close> then overwrites as many leading
  bytes of the header as it delivers, and the \<^verbatim>\<open>size\<close> field is used as the host reads
  it from that storage. The payload buffer is \<^verbatim>\<open>calloc(hdr->size + 1, 1)\<close>, filled from
  the front by one \<^verbatim>\<open>read\<close>. The result is the returned integer, the events that
  remain, the header and \<^verbatim>\<open>*payloadp\<close>.
\<close>

definition swap_fields :: "byte_order \<Rightarrow> JEUX_PACKET_HEADER \<Rightarrow> JEUX_PACKET_HEADER" where
  "swap_fields host hdr =
     (let hdr1 = set_size host hdr (ntohs host (hdr_size host hdr));
          hdr2 = set_timestamp_sec host hdr1 (ntohl host (hdr_timestamp_sec host hdr1))
      in set_timestamp_nsec host hdr2 (ntohl host (hdr_timestamp_nsec host hdr2)))"

definition proto_recv_packet ::
  "byte_order \<Rightarrow> rd_event list \<Rightarrow> JEUX_PACKET_HEADER
     \<Rightarrow> int \<times> rd_event list \<times> JEUX_PACKET_HEADER \<times> u8 list option"
where
  "proto_recv_packet host fd hdr =
     (let hdr0 = swap_fields host hdr;
          (returnedBytes, bs, fd1) = read_fd fd sizeof_hdr;
          hdr1 = bs @ drop (length bs) hdr0
      in if returnedBytes = - 1 then (- 1, fd1, hdr1, None)
         else if returnedBytes = 0 then (- 1, fd1, hdr1, None)
         else if hdr_size host hdr1 > 0 then
           (let buf = replicate (hdr_size host hdr1 + 1) 0;
                (returnedBytes2, bs2, fd2) = read_fd fd1 (hdr_size host hdr1);
                payload = bs2 @ drop (length bs2) buf
            in if returnedBytes2 = - 1 then (- 1, fd2, hdr1, Some payload)
               else (0, fd2, hdr1, Some payload))
         else (0, fd1, hdr1, None))"

text \<open>
  The header as \<^verbatim>\<open>client_send_packet\<close> (client.c, below) hands it on: size in network
  order, time stamps written.
\<close>

definition stamped ::
  "byte_order \<Rightarrow> (int \<times> int) option \<Rightarrow> JEUX_PACKET_HEADER \<Rightarrow> JEUX_PACKET_HEADER"
where
  "stamped host ts pkt =
     (let pkt1 = set_size host pkt (htons host (hdr_size host pkt))
      in case ts of
           None \<Rightarrow> set_timestamp_nsec host (set_timestamp_sec host pkt1 (htonl host 0))
                     (htonl host 0)
         | Some (tv_sec, tv_nsec) \<Rightarrow>
             set_timestamp_nsec host
               (set_timestamp_sec host pkt1 (htonl host (nat (tv_sec mod 2 ^ 32))))
               (htonl host (nat (tv_nsec mod 2 ^ 32))))"

section \<open>Client (client.c)\<close>

text \<open>
  \<^verbatim>\<open>INVITE_NODE\<close> and \<^verbatim>\<open>struct client\<close>. The singly linked list from \<^verbatim>\<open>inviteHead\<close> is
  the list of its nodes in order; invitations and the player are pointers, kept as
  addresses. \<open>client_count\<close> is the reference count, \<open>invites\<close> the counter from which
  invitation IDs are taken.
\<close>

record INVITE_NODE =
  node_id :: int
  node_invitation :: nat

record CLIENT =
  client_fd :: int
  client_player :: "nat option"
  inviteHead :: "INVITE_NODE list"
  client_count :: int
  invites :: int

definition client_ref :: "CLIENT \<Rightarrow> CLIENT" where
  "client_ref client = client\<lparr>client_count := client_count client + 1\<rparr>"

text \<open>\<^verbatim>\<open>client_create\<close> (the registry argument is not used by the body).\<close>

definition client_create :: "int \<Rightarrow> CLIENT" where
  "client_create fd =
     client_ref \<lparr>client_fd = fd, client_player = None, inviteHead = [],
                 client_count = 0, invites = 0\<rparr>"

text \<open>\<^verbatim>\<open>get_invite_node_from_id\<close>: the first node with the given ID, if any.\<close>

definition get_invite_node_from_id :: "CLIENT \<Rightarrow> int \<Rightarrow> INVITE_NODE option" where
  "get_invite_node_from_id client ident = find (\<lambda>n. node_id n = ident) (inviteHead client)"

text \<open>
  \<^verbatim>\<open>client_add_invitation\<close>: the new node takes the current value of \<open>invites\<close> as its
  ID and goes to the end of the list; \<open>invites\<close> is incremented. The result is the ID
  and the client after the call.
\<close>

definition client_add_invitation :: "CLIENT \<Rightarrow> nat \<Rightarrow> int \<times> CLIENT" where
  "client_add_invitation client invitation =
     (invites client,
      client\<lparr>inviteHead := inviteHead client
                 @ [\<lparr>node_id = invites client, node_invitation = invitation\<rparr>],
             invites := invites client + 1\<rparr>)"

text \<open>
  The search loop of \<^verbatim>\<open>client_remove_invitation\<close>: the first node that holds the
  invitation is unlinked, and its ID returned with the remaining list.
\<close>

fun unlink_node :: "INVITE_NODE list \<Rightarrow> nat \<Rightarrow> (int \<times> INVITE_NODE list) option" where
  "unlink_node [] invitation = None"
| "unlink_node (n # ns) invitation =
     (if node_invitation n = invitation then Some (node_id n, ns)
      else (case unlink_node ns invitation of
              None \<Rightarrow> None
            | Some (ident, ns') \<Rightarrow> Some (ident, n # ns')))"

text \<open>
  \<^verbatim>\<open>client_remove_invitation\<close>: the head is tested first, then the rest of the list;
  both paths decrement \<open>invites\<close>. -1 with the client unchanged when the invitation
  is not in the list.
\<close>

definition client_remove_invitation :: "CLIENT \<Rightarrow> nat \<Rightarrow> int \<times> CLIENT" where
  "client_remove_invitation client invitation =
     (case inviteHead client of
        [] \<Rightarrow> (- 1, client)
      | n # ns \<Rightarrow>
          if node_invitation n = invitation
          then (node_id n, client\<lparr>inviteHead := ns, invites := invites client - 1\<rparr>)
          else (case unlink_node ns invitation of
                  None \<Rightarrow> (- 1, client)
                | Some (ident, ns') \<Rightarrow>
                    (ident, client\<lparr>inviteHead := n # ns', invites := invites client - 1\<rparr>)))"

subsection \<open>Packets sent to a client\<close>

text \<open>
  \<^verbatim>\<open>client_send_packet\<close> converts the size to network order, stamps the header with
  the time and hands it to \<^verbatim>\<open>proto_send_packet\<close>. The clock is a parameter: \<open>None\<close>
  when \<^verbatim>\<open>clock_gettime\<close> fails, otherwise \<^verbatim>\<open>tv_sec\<close> and \<^verbatim>\<open>tv_nsec\<close>, which \<^verbatim>\<open>htonl\<close>
  takes modulo \<open>2^32\<close>. The connection is the one behind the client's descriptor.
\<close>

definition client_send_packet ::
  "byte_order \<Rightarrow> (int \<times> int) option \<Rightarrow> connection \<Rightarrow> JEUX_PACKET_HEADER \<Rightarrow> u8 list option
     \<Rightarrow> (int \<times> connection) option"
where
  "client_send_packet host ts fd pkt data =
     (let pkt1 = set_size host pkt (htons host (hdr_size host pkt));
          pkt2 = (case ts of
                    None \<Rightarrow> set_timestamp_nsec host (set_timestamp_sec host pkt1 (htonl host 0))
                              (htonl host 0)
                  | Some (tv_sec, tv_nsec) \<Rightarrow>
                      set_timestamp_nsec host
                        (set_timestamp_sec host pkt1 (htonl host (nat (tv_sec mod 2 ^ 32))))
                        (htonl host (nat (tv_nsec mod 2 ^ 32))))
      in proto_send_packet host fd pkt2 data)"

text \<open>
  \<^verbatim>\<open>client_send_ack\<close> and \<^verbatim>\<open>client_send_nack\<close>: a zeroed header (\<^verbatim>\<open>calloc\<close>) receives
  the type, \<^verbatim>\<open>id = 0\<close>, \<^verbatim>\<open>role = 0\<close> and the size (\<open>datalen\<close> converted to 16 bits).
\<close>

definition client_send_ack ::
  "byte_order \<Rightarrow> (int \<times> int) option \<Rightarrow> u8 \<Rightarrow> connection \<Rightarrow> u8 list option \<Rightarrow> nat
     \<Rightarrow> (int \<times> connection) option"
where
  "client_send_ack host ts JEUX_ACK_PKT fd data datalen =
     (let pkt = replicate sizeof_hdr 0;
          pkt = set_type pkt JEUX_ACK_PKT;
          pkt = set_id pkt 0;
          pkt = set_role pkt 0;
          pkt = set_size host pkt (datalen mod 65536)
      in client_send_packet host ts fd pkt data)"

definition client_send_nack ::
  "byte_order \<Rightarrow> (int \<times> int) option \<Rightarrow> u8 \<Rightarrow> connection \<Rightarrow> (int \<times> connection) option"
where
  "client_send_nack host ts JEUX_NACK_PKT fd =
     (let pkt = replicate sizeof_hdr 0;
          pkt = set_type pkt JEUX_NACK_PKT;
          pkt = set_id pkt 0;
          pkt = set_role pkt 0;
          pkt = set_size host pkt 0
      in client_send_packet host ts fd pkt None)"

section \<open>Properties of the game\<close>

lemma over_apply: "isOver game \<noteq> 0 \<Longrightarrow> game_apply_move game move = Some (- 1, game)"
  by (simp add: game_apply_move_def)

lemma over_resign: "isOver game \<noteq> 0 \<Longrightarrow> game_resign game role = (- 1, game)"
  by (simp add: game_resign_def)

lemma over_calls:
  "isOver game \<noteq> 0 \<Longrightarrow> game_calls game ops = Some (replicate (length ops) (- 1), game)"
proof (induction ops)
  case Nil
  then show ?case by simp
next
  case (Cons op ops)
  then show ?case by (cases op) (simp_all add: over_apply over_resign)
qed

text \<open>
  Claim C6. Once the \<^verbatim>\<open>isOver\<close> flag of a game is set, every later call of
  \<^verbatim>\<open>game_apply_move\<close> and of \<^verbatim>\<open>game_resign\<close> fails with -1 and leaves the whole
  game as it was: cells, expected piece, winner and the flag itself. The same holds
  for any sequence of such calls.
\<close>

theorem game_over_is_final:
  "isOver game \<noteq> 0 \<Longrightarrow>
     game_apply_move game move = Some (- 1, game) \<and>
     game_resign game role = (- 1, game) \<and>
     game_calls game ops = Some (replicate (length ops) (- 1), game)"
  by (simp add: over_apply over_resign over_calls)

theorem game_over_is_final_witness:
  "isOver (snd (game_resign game_create FIRST_PLAYER_ROLE)) \<noteq> 0 \<and>
   game_apply_move (snd (game_resign game_create FIRST_PLAYER_ROLE)) \<lparr>piece = 1, placement = 5\<rparr>
     = Some (- 1, snd (game_resign game_create FIRST_PLAYER_ROLE)) \<and>
   game_resign (snd (game_resign game_create FIRST_PLAYER_ROLE)) SECOND_PLAYER_ROLE
     = (- 1, snd (game_resign game_create FIRST_PLAYER_ROLE)) \<and>
   game_calls (snd (game_resign game_create FIRST_PLAYER_ROLE))
       [Move \<lparr>piece = 1, placement = 5\<rparr>, Resign SECOND_PLAYER_ROLE]
     = Some ([- 1, - 1], snd (game_resign game_create FIRST_PLAYER_ROLE))"
proof -
  have h: "isOver (snd (game_resign game_create FIRST_PLAYER_ROLE)) \<noteq> 0"
    by (simp add: game_resign_def game_create_def game_ref_def)
  show ?thesis
    using h game_over_is_final [OF h, of "\<lparr>piece = 1, placement = 5\<rparr>" SECOND_PLAYER_ROLE
        "[Move \<lparr>piece = 1, placement = 5\<rparr>, Resign SECOND_PLAYER_ROLE]"]
    by simp
qed

lemma line_loop_unfold:
  "line_loop game 0 0 =
     (if three_equal (game_board game) 0 1 2 then set_winner game 0
      else if three_equal (game_board game) 0 3 6 then set_winner game 0
      else if three_equal (game_board game) 3 4 5 then set_winner game 3
      else if three_equal (game_board game) 1 4 7 then set_winner game 1
      else if three_equal (game_board game) 6 7 8 then set_winner game 6
      else if three_equal (game_board game) 2 5 8 then set_winner game 2
      else game)"
proof -
  have s3: "line_loop game 9 3 = game"
    by (subst line_loop.simps) simp
  have s2: "line_loop game 6 2 =
     (if three_equal (game_board game) 6 7 8 then set_winner game 6
      else if three_equal (game_board game) 2 5 8 then set_winner game 2
      else game)"
    using line_loop.simps [of game 6 2] by (simp add: s3 numeral_2_eq_2 [symmetric])
  have s1: "line_loop game 3 1 =
     (if three_equal (game_board game) 3 4 5 then set_winner game 3
      else if three_equal (game_board game) 1 4 7 then set_winner game 1
      else line_loop game 6 2)"
    using line_loop.simps [of game 3 1] by (simp add: numeral_2_eq_2 [symmetric])
  show ?thesis
    using line_loop.simps [of game 0 0] s1 s2 by (simp add: numeral_2_eq_2 [symmetric])
qed

lemma line_loop_board [simp]: "game_board (line_loop game i j) = game_board game"
  by (induction game i j rule: line_loop.induct)
     (subst line_loop.simps, simp add: set_winner_def)

lemma line_loop_expected [simp]: "expectedPiece (line_loop game i j) = expectedPiece game"
  by (induction game i j rule: line_loop.induct)
     (subst line_loop.simps, simp add: set_winner_def)

lemma has_line_iff:
  "has_line b \<longleftrightarrow>
     three_equal b 0 1 2 \<or> three_equal b 3 4 5 \<or> three_equal b 6 7 8 \<or>
     three_equal b 0 3 6 \<or> three_equal b 1 4 7 \<or> three_equal b 2 5 8 \<or>
     three_equal b 0 4 8 \<or> three_equal b 2 4 6"
  by (simp add: has_line_def win_lines_def three_equal_def)


lemma check_end_board [simp]: "game_board (check_end g) = game_board g"
  by (simp add: check_end_def set_winner_def Let_def)

lemma check_end_expected [simp]: "expectedPiece (check_end g) = expectedPiece g"
  by (simp add: check_end_def set_winner_def Let_def)

lemma apply_move_success:
  assumes "game_apply_move g m = Some (0, g')"
  shows "isOver g = 0" and "1 \<le> placement m" and "placement m \<le> 9"
    and "game_board g ! nat (placement m - 1) = - 1"
    and "piece m = expectedPiece g"
    and "game_board g' = (game_board g)[nat (placement m - 1) := piece m]"
    and "expectedPiece g' = 1 - expectedPiece g"
  using assms
  by (auto simp: game_apply_move_def split: if_splits)

lemma role_of_piece_not_null [simp]: "role_of_piece p \<noteq> NULL_ROLE"
  by (simp add: role_of_piece_def)

lemma line_loop_none:
  assumes "\<not> three_equal (game_board g) 0 1 2" "\<not> three_equal (game_board g) 3 4 5"
    "\<not> three_equal (game_board g) 6 7 8" "\<not> three_equal (game_board g) 0 3 6"
    "\<not> three_equal (game_board g) 1 4 7" "\<not> three_equal (game_board g) 2 5 8"
  shows "line_loop g 0 0 = g"
  using assms by (simp add: line_loop_unfold)

lemma line_loop_some:
  assumes "three_equal (game_board g) 0 1 2 \<or> three_equal (game_board g) 3 4 5 \<or>
    three_equal (game_board g) 6 7 8 \<or> three_equal (game_board g) 0 3 6 \<or>
    three_equal (game_board g) 1 4 7 \<or> three_equal (game_board g) 2 5 8"
  shows "isOver (line_loop g 0 0) = 1 \<and> winner (line_loop g 0 0) \<noteq> NULL_ROLE"
  using assms by (auto simp: line_loop_unfold set_winner_def)

lemma check_end_detects:
  assumes "winner g = NULL_ROLE"
  shows "(has_line (game_board g) \<longleftrightarrow> winner (check_end g) \<noteq> NULL_ROLE) \<and>
         (isOver (check_end g) = 0 \<longrightarrow> winner (check_end g) = NULL_ROLE)"
proof -
  let ?b = "game_board g"
  consider (d1) "three_equal ?b 0 4 8"
    | (d2) "\<not> three_equal ?b 0 4 8" "three_equal ?b 2 4 6"
    | (rc) "\<not> three_equal ?b 0 4 8" "\<not> three_equal ?b 2 4 6"
        "three_equal ?b 0 1 2 \<or> three_equal ?b 3 4 5 \<or> three_equal ?b 6 7 8 \<or>
         three_equal ?b 0 3 6 \<or> three_equal ?b 1 4 7 \<or> three_equal ?b 2 5 8"
    | (no) "\<not> three_equal ?b 0 4 8" "\<not> three_equal ?b 2 4 6"
        "\<not> three_equal ?b 0 1 2" "\<not> three_equal ?b 3 4 5" "\<not> three_equal ?b 6 7 8"
        "\<not> three_equal ?b 0 3 6" "\<not> three_equal ?b 1 4 7" "\<not> three_equal ?b 2 5 8"
    by blast
  then show ?thesis
  proof cases
    case d1
    then show ?thesis by (simp add: check_end_def set_winner_def has_line_iff)
  next
    case d2
    then show ?thesis by (simp add: check_end_def set_winner_def has_line_iff)
  next
    case rc
    from line_loop_some [OF rc(3)] rc show ?thesis
      by (simp add: check_end_def Let_def has_line_iff)
  next
    case no
    from line_loop_none [OF no(3-8)] no assms show ?thesis
      by (simp add: check_end_def Let_def has_line_iff)
  qed
qed

lemma apply_move_detects:
  assumes "game_apply_move g m = Some (0, g')" and "winner g = NULL_ROLE"
  shows "has_line (game_board g') \<longleftrightarrow> winner g' \<noteq> NULL_ROLE"
    and "isOver g' = 0 \<longrightarrow> winner g' = NULL_ROLE"
proof -
  let ?g1 = "g\<lparr>game_board := (game_board g)[nat (placement m - 1) := piece m],
                expectedPiece := 1 - expectedPiece g\<rparr>"
  from assms(1) have g': "g' = check_end ?g1"
    by (simp add: game_apply_move_def split: if_splits)
  from assms(2) have "winner ?g1 = NULL_ROLE" by simp
  from check_end_detects [OF this] show "has_line (game_board g') \<longleftrightarrow> winner g' \<noteq> NULL_ROLE"
    and "isOver g' = 0 \<longrightarrow> winner g' = NULL_ROLE"
    by (simp_all add: g')
qed

lemma no_line_empty: "\<not> has_line (replicate 9 (- 1))"
  by (simp add: has_line_iff three_equal_def)

lemma winner_inv_create: "winner_inv_moves game_create"
  by (simp add: winner_inv_moves_def game_create_def game_ref_def no_line_empty)

lemma winner_inv_moves_imp: "winner_inv_moves g \<Longrightarrow> winner_inv g"
  by (simp add: winner_inv_moves_def winner_inv_def)

lemma winner_inv_step:
  assumes "winner_inv g" and "game_step g op = Some (0, g')"
  shows "winner_inv g'"
proof (cases op)
  case (Move m)
  with assms have mv: "game_apply_move g m = Some (0, g')" by simp
  from apply_move_success(1) [OF mv] assms(1) have "winner g = NULL_ROLE"
    by (simp add: winner_inv_def)
  from apply_move_detects [OF mv this] show ?thesis
    by (simp add: winner_inv_def)
next
  case (Resign r)
  with assms show ?thesis
    by (auto simp: winner_inv_def game_resign_def split: if_splits)
qed

lemma winner_inv_moves_step:
  assumes "winner_inv_moves g" and "game_apply_move g m = Some (0, g')"
  shows "winner_inv_moves g'"
proof -
  from apply_move_success(1) [OF assms(2)] assms(1) have "winner g = NULL_ROLE"
    by (simp add: winner_inv_moves_def)
  from apply_move_detects [OF assms(2) this] show ?thesis
    by (simp add: winner_inv_moves_def)
qed

lemma winner_inv_run:
  "winner_inv g \<Longrightarrow> game_run g ops = Some g' \<Longrightarrow> winner_inv g'"
proof (induction ops arbitrary: g)
  case Nil
  then show ?case by simp
next
  case (Cons op ops)
  from Cons.prems(2) obtain g1 where st: "game_step g op = Some (0, g1)"
    and rest: "game_run g1 ops = Some g'"
    by (auto split: option.splits if_splits)
  from winner_inv_step [OF Cons.prems(1) st] rest show ?case
    by (rule Cons.IH)
qed

lemma winner_inv_moves_run:
  "winner_inv_moves g \<Longrightarrow> game_run g (map Move ms) = Some g' \<Longrightarrow> winner_inv_moves g'"
proof (induction ms arbitrary: g)
  case Nil
  then show ?case by simp
next
  case (Cons m ms)
  from Cons.prems(2) obtain g1 where st: "game_apply_move g m = Some (0, g1)"
    and rest: "game_run g1 (map Move ms) = Some g'"
    by (auto split: option.splits if_splits)
  from winner_inv_moves_step [OF Cons.prems(1) st] rest show ?case
    by (rule Cons.IH)
qed

lemma five_moves_run:
  "game_run game_create
     [Move \<lparr>piece = 1, placement = 5\<rparr>, Move \<lparr>piece = 0, placement = 1\<rparr>,
      Move \<lparr>piece = 1, placement = 4\<rparr>, Move \<lparr>piece = 0, placement = 2\<rparr>,
      Move \<lparr>piece = 1, placement = 6\<rparr>]
   = Some \<lparr>game_board = [0, 0, - 1, 1, 1, 1, - 1, - 1, - 1], isOver = 1,
            winner = FIRST_PLAYER_ROLE, game_count = 1, expectedPiece = 0\<rparr>"
  by (simp add: game_create_def game_ref_def game_apply_move_def check_end_def Let_def
        line_loop_unfold three_equal_def set_winner_def role_of_piece_def eval_nat_numeral)

lemma resign_first_run:
  "game_run game_create [Resign FIRST_PLAYER_ROLE]
   = Some \<lparr>game_board = [- 1, - 1, - 1, - 1, - 1, - 1, - 1, - 1, - 1], isOver = 1,
            winner = SECOND_PLAYER_ROLE, game_count = 1, expectedPiece = 1\<rparr>"
  by code_simp

text \<open>
  Claim C7, as stated: in every game reached from \<^verbatim>\<open>game_create\<close> by successful
  \<^verbatim>\<open>game_apply_move\<close> and \<^verbatim>\<open>game_resign\<close> calls, the winner is not \<^verbatim>\<open>NULL_ROLE\<close>
  if and only if the board holds three equal pieces on a winning line. It fails
  after a resignation: resigning the new game as the first player makes the second
  player the winner on an empty board.
\<close>

theorem winner_iff_line_counterexample:
  "game_run game_create [Resign FIRST_PLAYER_ROLE]
     = Some \<lparr>game_board = [- 1, - 1, - 1, - 1, - 1, - 1, - 1, - 1, - 1], isOver = 1,
              winner = SECOND_PLAYER_ROLE, game_count = 1, expectedPiece = 1\<rparr> \<and>
   winner \<lparr>game_board = [- 1, - 1, - 1, - 1, - 1, - 1, - 1, - 1, - 1], isOver = 1,
           winner = SECOND_PLAYER_ROLE, game_count = 1, expectedPiece = 1\<rparr> \<noteq> NULL_ROLE \<and>
   \<not> has_line [- 1, - 1, - 1, - 1, - 1, - 1, - 1, - 1, - 1]"
  by (rule conjI [OF resign_first_run]) (simp add: has_line_def win_lines_def)

text \<open>
  Claim C7, amended. In every game reached from \<^verbatim>\<open>game_create\<close> by successful
  \<^verbatim>\<open>game_apply_move\<close> and \<^verbatim>\<open>game_resign\<close> calls, three equal pieces on a winning
  line imply that the winner is not \<^verbatim>\<open>NULL_ROLE\<close>; and in every game reached by
  successful \<^verbatim>\<open>game_apply_move\<close> calls alone, the winner is not \<^verbatim>\<open>NULL_ROLE\<close> if and
  only if the board holds three equal pieces on a winning line.
\<close>

theorem winner_iff_line_amended:
  "(game_run game_create ops = Some g \<longrightarrow>
      (has_line (game_board g) \<longrightarrow> winner g \<noteq> NULL_ROLE)) \<and>
   (game_run game_create (map Move ms) = Some g' \<longrightarrow>
      (winner g' \<noteq> NULL_ROLE \<longleftrightarrow> has_line (game_board g')))"
proof (intro conjI impI)
  assume "game_run game_create ops = Some g" and "has_line (game_board g)"
  with winner_inv_run [OF winner_inv_moves_imp [OF winner_inv_create]]
  show "winner g \<noteq> NULL_ROLE"
    by (simp add: winner_inv_def)
next
  assume "game_run game_create (map Move ms) = Some g'"
  with winner_inv_moves_run [OF winner_inv_create]
  show "winner g' \<noteq> NULL_ROLE \<longleftrightarrow> has_line (game_board g')"
    by (simp add: winner_inv_moves_def)
qed

theorem winner_iff_line_amended_witness:
  "game_run game_create
     [Move \<lparr>piece = 1, placement = 5\<rparr>, Move \<lparr>piece = 0, placement = 1\<rparr>,
      Move \<lparr>piece = 1, placement = 4\<rparr>, Move \<lparr>piece = 0, placement = 2\<rparr>,
      Move \<lparr>piece = 1, placement = 6\<rparr>]
     = Some \<lparr>game_board = [0, 0, - 1, 1, 1, 1, - 1, - 1, - 1], isOver = 1,
              winner = FIRST_PLAYER_ROLE, game_count = 1, expectedPiece = 0\<rparr> \<and>
   has_line [0, 0, - 1, 1, 1, 1, - 1, - 1, - 1] \<and>
   winner \<lparr>game_board = [0, 0, - 1, 1, 1, 1, - 1, - 1, - 1], isOver = 1,
           winner = FIRST_PLAYER_ROLE, game_count = 1, expectedPiece = 0\<rparr> \<noteq> NULL_ROLE"
  using five_moves_run
    winner_iff_line_amended
      [of "[Move \<lparr>piece = 1, placement = 5\<rparr>, Move \<lparr>piece = 0, placement = 1\<rparr>,
            Move \<lparr>piece = 1, placement = 4\<rparr>, Move \<lparr>piece = 0, placement = 2\<rparr>,
            Move \<lparr>piece = 1, placement = 6\<rparr>]"
          "\<lparr>game_board = [0, 0, - 1, 1, 1, 1, - 1, - 1, - 1], isOver = 1,
            winner = FIRST_PLAYER_ROLE, game_count = 1, expectedPiece = 0\<rparr>"
          "[\<lparr>piece = 1, placement = 5\<rparr>, \<lparr>piece = 0, placement = 1\<rparr>,
            \<lparr>piece = 1, placement = 4\<rparr>, \<lparr>piece = 0, placement = 2\<rparr>,
            \<lparr>piece = 1, placement = 6\<rparr>]"
          "\<lparr>game_board = [0, 0, - 1, 1, 1, 1, - 1, - 1, - 1], isOver = 1,
            winner = FIRST_PLAYER_ROLE, game_count = 1, expectedPiece = 0\<rparr>"]
  by (simp add: has_line_def win_lines_def)

lemma count_list_update:
  "k < length xs \<Longrightarrow> xs ! k \<noteq> v \<Longrightarrow>
     count_list (xs[k := p]) v = count_list xs v + (if p = v then 1 else 0)"
proof (induction xs arbitrary: k)
  case Nil
  then show ?case by simp
next
  case (Cons x xs)
  then show ?case by (cases k) auto
qed

lemma turn_inv_create: "turn_inv game_create"
  by (simp add: turn_inv_def game_create_def game_ref_def piece_diff_def)

lemma turn_inv_step:
  assumes "turn_inv g" and mv: "game_apply_move g m = Some (0, g')"
  shows "turn_inv g'"
proof -
  let ?k = "nat (placement m - 1)"
  from apply_move_success [OF mv] assms(1)
  have k: "?k < length (game_board g)" and e: "game_board g ! ?k = - 1"
    and b: "game_board g' = (game_board g)[?k := expectedPiece g]"
    and x: "expectedPiece g' = 1 - expectedPiece g"
    by (auto simp: turn_inv_def)
  have c1: "count_list (game_board g') 1 = count_list (game_board g) 1 + (if expectedPiece g = 1 then 1 else 0)"
    unfolding b using k e by (subst count_list_update) auto
  have c0: "count_list (game_board g') 0 = count_list (game_board g) 0 + (if expectedPiece g = 0 then 1 else 0)"
    unfolding b using k e by (subst count_list_update) auto
  from assms(1) have len: "length (game_board g') = 9"
    by (simp add: b turn_inv_def)
  from assms(1) show ?thesis
    by (auto simp: turn_inv_def piece_diff_def c1 c0 x len)
qed

lemma turn_inv_run:
  "turn_inv g \<Longrightarrow> game_run g (map Move ms) = Some g' \<Longrightarrow> turn_inv g'"
proof (induction ms arbitrary: g)
  case Nil
  then show ?case by simp
next
  case (Cons m ms)
  from Cons.prems(2) obtain g1 where st: "game_apply_move g m = Some (0, g1)"
    and rest: "game_run g1 (map Move ms) = Some g'"
    by (auto split: option.splits if_splits)
  from turn_inv_step [OF Cons.prems(1) st] rest show ?case
    by (rule Cons.IH)
qed

text \<open>
  Claim C10. In every game reached from \<^verbatim>\<open>game_create\<close> by successful
  \<^verbatim>\<open>game_apply_move\<close> calls, the number of X pieces on the board minus the number of
  O pieces is 0 or 1, and it is 0 exactly when X (piece 1, the first player) is the
  piece expected next.
\<close>

theorem piece_counts_follow_turn:
  assumes "game_run game_create (map Move ms) = Some g"
  shows "(piece_diff (game_board g) = 0 \<or> piece_diff (game_board g) = 1) \<and>
         (piece_diff (game_board g) = 0 \<longleftrightarrow> expectedPiece g = 1)"
  using turn_inv_run [OF turn_inv_create assms]
  by (auto simp: turn_inv_def)

theorem piece_counts_follow_turn_witness:
  "game_run game_create
     (map Move [\<lparr>piece = 1, placement = 5\<rparr>, \<lparr>piece = 0, placement = 1\<rparr>,
                \<lparr>piece = 1, placement = 9\<rparr>])
     = Some \<lparr>game_board = [0, - 1, - 1, - 1, 1, - 1, - 1, - 1, 1], isOver = 0,
              winner = NULL_ROLE, game_count = 1, expectedPiece = 0\<rparr> \<and>
   piece_diff [0, - 1, - 1, - 1, 1, - 1, - 1, - 1, 1] = 1"
proof -
  have run: "game_run game_create
     (map Move [\<lparr>piece = 1, placement = 5\<rparr>, \<lparr>piece = 0, placement = 1\<rparr>,
                \<lparr>piece = 1, placement = 9\<rparr>])
     = Some \<lparr>game_board = [0, - 1, - 1, - 1, 1, - 1, - 1, - 1, 1], isOver = 0,
              winner = NULL_ROLE, game_count = 1, expectedPiece = 0\<rparr>"
    by (simp add: game_create_def game_ref_def game_apply_move_def check_end_def Let_def
          line_loop_unfold three_equal_def set_winner_def role_of_piece_def eval_nat_numeral)
  from piece_counts_follow_turn [OF run] run show ?thesis
    by (simp add: piece_diff_def)
qed

section \<open>Properties of the move text\<close>

lemma piece_loop_none: "set cs \<inter> set ''xXoO'' = {} \<Longrightarrow> piece_loop cs = - 1"
  by (induction cs) auto

lemma piece_loop_first:
  "set sep \<inter> set ''xXoO'' = {} \<Longrightarrow> p \<in> set ''xXoO'' \<Longrightarrow>
     piece_loop (sep @ p # tail) = (if p \<in> set ''xX'' then 1 else 0)"
  by (induction sep) auto

lemma digit_value:
  assumes "c \<in> set ''123456789''"
  shows "1 \<le> c_str_first (c # rest) - 48 \<and> c_str_first (c # rest) - 48 \<le> 9"
  using assms by (auto simp: c_str_first_def c_char_def)

text \<open>
  Claim C1, as stated: \<^verbatim>\<open>game_parse_move\<close> returns a move exactly for the strings
  \<open><cell>\<close> and \<open><cell><sep><piece>\<close> with the cell in 1..9, so that a bare cell parses
  and a cell outside 1..9 is rejected. On the code the bare cell \<^verbatim>\<open>5\<close> is rejected,
  and \<^verbatim>\<open>0X\<close>, whose cell is outside 1..9, yields a move with placement 0.
\<close>

theorem parse_move_counterexample:
  "game_parse_move game_create NULL_ROLE ''5'' = None \<and>
   game_parse_move game_create NULL_ROLE ''0X'' = Some \<lparr>piece = 1, placement = 0\<rparr>"
  by (simp add: game_parse_move_def c_str_first_def c_char_def Let_def)

text \<open>
  Claim C1, amended. For every game, role and string whose first character is a digit
  1..9, \<^verbatim>\<open>game_parse_move\<close> returns a move exactly when one of \<^verbatim>\<open>x X o O\<close> occurs
  after the first character: a bare cell is rejected, a string with no piece letter
  after the cell is rejected, and otherwise the move has the cell as placement
  (1..9) and the piece of the first piece letter (1 for \<^verbatim>\<open>x X\<close>, 0 for \<^verbatim>\<open>o O\<close>),
  whatever stands between the cell and that letter and after it.
\<close>

theorem parse_move_amended:
  assumes "c \<in> set ''123456789''"
  shows "game_parse_move game role [c] = None \<and>
    (set rest \<inter> set ''xXoO'' = {} \<longrightarrow> game_parse_move game role (c # rest) = None) \<and>
    (set sep \<inter> set ''xXoO'' = {} \<and> p \<in> set ''xXoO'' \<longrightarrow>
       game_parse_move game role (c # sep @ p # tail)
         = Some \<lparr>piece = (if p \<in> set ''xX'' then 1 else 0), placement = c_char c - 48\<rparr>) \<and>
    1 \<le> c_char c - 48 \<and> c_char c - 48 \<le> 9"
proof -
  from digit_value [OF assms, of "[]"] have d: "1 \<le> c_char c - 48" "c_char c - 48 \<le> 9"
    by (simp_all add: c_str_first_def)
  have a: "game_parse_move game role [c] = None"
    by (simp add: game_parse_move_def Let_def)
  have b: "game_parse_move game role (c # rest) = None" if "set rest \<inter> set ''xXoO'' = {}"
    using piece_loop_none [OF that] by (simp add: game_parse_move_def Let_def)
  have e: "game_parse_move game role (c # sep @ p # tail)
         = Some \<lparr>piece = (if p \<in> set ''xX'' then 1 else 0), placement = c_char c - 48\<rparr>"
    if "set sep \<inter> set ''xXoO'' = {}" "p \<in> set ''xXoO''"
    using piece_loop_first [OF that, of tail] d
    by (simp add: game_parse_move_def Let_def c_str_first_def)
  from a b e d show ?thesis by blast
qed

theorem parse_move_amended_witness:
  "CHR ''5'' \<in> set ''123456789'' \<and>
   game_parse_move game_create FIRST_PLAYER_ROLE ''5'' = None \<and>
   game_parse_move game_create FIRST_PLAYER_ROLE ''5-'' = None \<and>
   game_parse_move game_create FIRST_PLAYER_ROLE ''5-xo'' = Some \<lparr>piece = 1, placement = 5\<rparr>"
proof -
  have h: "CHR ''5'' \<in> set ''123456789''" by simp
  show ?thesis
    using h parse_move_amended [OF h, where game = game_create and role = FIRST_PLAYER_ROLE
        and rest = "''-''" and sep = "''-''" and p = "CHR ''x''" and tail = "''o''"]
    by (simp add: c_char_def)
qed

lemma digit_char:
  assumes "1 \<le> (n::int)" and "n \<le> 9"
  shows "c_char (char_of (n + 48)) = n + 48" and "(char_of (n + 48) :: char) \<noteq> CHR 0x00"
proof -
  have v: "(of_char (char_of (n + 48) :: char) :: int) = n + 48"
    using assms by simp
  then show "c_char (char_of (n + 48)) = n + 48"
    using assms by (simp add: c_char_def)
  show "(char_of (n + 48) :: char) \<noteq> CHR 0x00"
  proof
    assume "(char_of (n + 48) :: char) = CHR 0x00"
    then have "(of_char (char_of (n + 48) :: char) :: int) = of_char (CHR 0x00)" by simp
    with v assms show False by simp
  qed
qed

text \<open>
  Claim C8. For every move with placement in 1..9 and piece X (1) or O (0), parsing
  the string that \<^verbatim>\<open>game_unparse_move\<close> produces gives back the same move, for any
  game and role passed to \<^verbatim>\<open>game_parse_move\<close>.
\<close>

theorem parse_unparse_roundtrip:
  assumes "1 \<le> placement m" and "placement m \<le> 9" and "piece m = 1 \<or> piece m = 0"
  shows "game_parse_move game role (game_unparse_move m) = Some m"
proof -
  let ?c = "char_of (placement m + 48) :: char"
  let ?l = "if piece m = 1 then CHR ''X'' else CHR ''O''"
  from digit_char [OF assms(1,2)] have c: "c_char ?c = placement m + 48" and z: "?c \<noteq> CHR 0x00"
    by simp_all
  from z have u: "game_unparse_move m = [?c, CHR ''-'', CHR ''>'', ?l]"
    by (simp add: game_unparse_move_def c_string_def)
  have p: "piece_loop [CHR ''-'', CHR ''>'', ?l] = piece m"
    using assms(3) by auto
  have "game_parse_move game role (game_unparse_move m)
     = Some \<lparr>piece = piece m, placement = placement m\<rparr>"
    unfolding u using assms(3) p c
    by (auto simp: game_parse_move_def c_str_first_def Let_def)
  then show ?thesis by simp
qed

theorem parse_unparse_roundtrip_witness:
  "game_unparse_move \<lparr>piece = 1, placement = 5\<rparr> = ''5->X'' \<and>
   game_parse_move game_create NULL_ROLE (game_unparse_move \<lparr>piece = 1, placement = 5\<rparr>)
     = Some \<lparr>piece = 1, placement = 5\<rparr>"
  using parse_unparse_roundtrip [of "\<lparr>piece = 1, placement = 5\<rparr>" game_create NULL_ROLE]
  by (simp add: game_unparse_move_def c_string_def char_of_def)

section \<open>Properties of the invitation\<close>

lemma inv_wf_create: "inv_create s t sr tr = Some iv \<Longrightarrow> inv_wf iv"
  by (auto simp: inv_create_def inv_ref_def inv_wf_def split: if_splits)

lemma inv_wf_step: "inv_wf iv \<Longrightarrow> inv_step iv op = Some iv' \<Longrightarrow> inv_wf iv'"
proof (cases op)
  case Accept
  assume "inv_wf iv" "inv_step iv op = Some iv'"
  with Accept show ?thesis
    by (auto simp: inv_wf_def inv_accept_def split: if_splits)
next
  case (Close role)
  assume "inv_wf iv" "inv_step iv op = Some iv'"
  with Close show ?thesis
    by (auto simp: inv_wf_def inv_close_def split: if_splits option.splits)
next
  case (OnGame gop)
  assume "inv_wf iv" "inv_step iv op = Some iv'"
  with OnGame show ?thesis
    by (auto simp: inv_wf_def inv_get_game_def split: option.splits)
qed

lemma inv_wf_run: "inv_wf iv \<Longrightarrow> inv_run iv ops = Some iv' \<Longrightarrow> inv_wf iv'"
proof (induction ops arbitrary: iv)
  case Nil
  then show ?case by simp
next
  case (Cons op ops)
  from Cons.prems(2) obtain inv1 where st: "inv_step iv op = Some inv1"
    and rest: "inv_run inv1 ops = Some iv'"
    by (auto split: option.splits)
  from inv_wf_step [OF Cons.prems(1) st] rest show ?case
    by (rule Cons.IH)
qed

lemma resign_over: "isOver g \<noteq> 0 \<Longrightarrow> snd (game_resign g role) = g"
  by (simp add: game_resign_def)

lemma accept_refines: "inv_accept iv = spec_accept iv"
  by (cases "inv_state iv") (simp_all add: inv_accept_def spec_accept_def)

lemma close_refines: "inv_wf iv \<Longrightarrow> inv_close iv role = spec_close iv role"
  by (cases "inv_state iv")
     (auto simp: inv_wf_def inv_close_def spec_close_def spec_game_over_def game_is_over_def
        resign_over split: option.splits)

text \<open>
  Claim C5. On every invitation reached from \<^verbatim>\<open>inv_create\<close> by calls of
  \<^verbatim>\<open>inv_accept\<close>, \<^verbatim>\<open>inv_close\<close> and moves or resignations in its game,
  \<^verbatim>\<open>inv_accept\<close> and \<^verbatim>\<open>inv_close\<close> do what the state machine of the specification
  says: accept succeeds exactly from OPEN (to ACCEPTED, with a new game); close
  succeeds from OPEN with any role, from ACCEPTED without a role only when the game
  is over, from ACCEPTED with a role by resigning the game for that role (a game
  already over is left as it is, as \<^verbatim>\<open>game_resign\<close> leaves it); everything else,
  and anything from CLOSED, returns -1; and a call that fails changes nothing.
\<close>

theorem invitation_state_machine:
  assumes "inv_create source target source_role target_role = Some inv0"
    and "inv_run inv0 ops = Some iv"
  shows "inv_accept iv = spec_accept iv \<and> inv_close iv role = spec_close iv role \<and>
         (fst (inv_accept iv) \<noteq> 0 \<longrightarrow> snd (inv_accept iv) = iv) \<and>
         (fst (inv_close iv role) \<noteq> 0 \<longrightarrow> snd (inv_close iv role) = iv)"
proof -
  from inv_wf_run [OF inv_wf_create [OF assms(1)] assms(2)] have wf: "inv_wf iv" .
  have a: "fst (inv_accept iv) \<noteq> 0 \<longrightarrow> snd (inv_accept iv) = iv"
    by (simp add: inv_accept_def)
  have c: "fst (inv_close iv role) \<noteq> 0 \<longrightarrow> snd (inv_close iv role) = iv"
    by (simp add: inv_close_def split: option.splits)
  from accept_refines close_refines [OF wf] a c show ?thesis by simp
qed

theorem invitation_state_machine_witness:
  "inv_create 1 2 SECOND_PLAYER_ROLE FIRST_PLAYER_ROLE
     = Some \<lparr>inv_source = 1, inv_source_role = SECOND_PLAYER_ROLE, inv_target = 2,
              inv_target_role = FIRST_PLAYER_ROLE, inv_state = INV_OPEN_STATE,
              inv_game = None, inv_count = 1\<rparr> \<and>
   inv_run \<lparr>inv_source = 1, inv_source_role = SECOND_PLAYER_ROLE, inv_target = 2,
            inv_target_role = FIRST_PLAYER_ROLE, inv_state = INV_OPEN_STATE,
            inv_game = None, inv_count = 1\<rparr> [Accept]
     = Some \<lparr>inv_source = 1, inv_source_role = SECOND_PLAYER_ROLE, inv_target = 2,
              inv_target_role = FIRST_PLAYER_ROLE, inv_state = INV_ACCEPTED_STATE,
              inv_game = Some game_create, inv_count = 1\<rparr> \<and>
   fst (inv_accept \<lparr>inv_source = 1, inv_source_role = SECOND_PLAYER_ROLE, inv_target = 2,
              inv_target_role = FIRST_PLAYER_ROLE, inv_state = INV_ACCEPTED_STATE,
              inv_game = Some game_create, inv_count = 1\<rparr>) = - 1 \<and>
   fst (inv_close \<lparr>inv_source = 1, inv_source_role = SECOND_PLAYER_ROLE, inv_target = 2,
              inv_target_role = FIRST_PLAYER_ROLE, inv_state = INV_ACCEPTED_STATE,
              inv_game = Some game_create, inv_count = 1\<rparr> NULL_ROLE) = - 1 \<and>
   inv_close \<lparr>inv_source = 1, inv_source_role = SECOND_PLAYER_ROLE, inv_target = 2,
              inv_target_role = FIRST_PLAYER_ROLE, inv_state = INV_ACCEPTED_STATE,
              inv_game = Some game_create, inv_count = 1\<rparr> SECOND_PLAYER_ROLE
     = (0, \<lparr>inv_source = 1, inv_source_role = SECOND_PLAYER_ROLE, inv_target = 2,
              inv_target_role = FIRST_PLAYER_ROLE, inv_state = INV_CLOSED_STATE,
              inv_game = Some (game_create\<lparr>isOver := 1, winner := FIRST_PLAYER_ROLE\<rparr>),
              inv_count = 1\<rparr>)"
proof -
  let ?i0 = "\<lparr>inv_source = 1, inv_source_role = SECOND_PLAYER_ROLE, inv_target = 2,
              inv_target_role = FIRST_PLAYER_ROLE, inv_state = INV_OPEN_STATE,
              inv_game = None, inv_count = 1\<rparr>"
  let ?i1 = "\<lparr>inv_source = 1, inv_source_role = SECOND_PLAYER_ROLE, inv_target = 2,
              inv_target_role = FIRST_PLAYER_ROLE, inv_state = INV_ACCEPTED_STATE,
              inv_game = Some game_create, inv_count = 1\<rparr>"
  have c: "inv_create 1 2 SECOND_PLAYER_ROLE FIRST_PLAYER_ROLE = Some ?i0"
    by (simp add: inv_create_def inv_ref_def)
  have r: "inv_run ?i0 [Accept] = Some ?i1"
    by (simp add: inv_accept_def)
  have over: "isOver game_create = 0"
    by (simp add: game_create_def game_ref_def)
  from invitation_state_machine [OF c r, of NULL_ROLE]
    invitation_state_machine [OF c r, of SECOND_PLAYER_ROLE] c r over
  show ?thesis
    by (simp add: spec_accept_def spec_close_def spec_game_over_def game_resign_def)
qed

section \<open>Properties of the packet functions\<close>

text \<open>Lists indexed by numerals, for the evaluation of concrete packets.\<close>

lemma list_update_Cons_numeral: "(x # xs)[numeral v := y] = x # xs[pred_numeral v := y]"
  by (simp add: numeral_eq_Suc)

lemma replicate_numeral: "replicate (numeral v) x = x # replicate (pred_numeral v) x"
  by (simp add: numeral_eq_Suc)

lemma read_fd_err: "fst (read_fd fd n) = - 1 \<longleftrightarrow> (\<exists>rest. fd = RdErr # rest)"
  by (cases "(fd, n)" rule: read_fd.cases) auto

lemma read_fd_ret: "fst (read_fd fd n) = - 1 \<or> 0 \<le> fst (read_fd fd n)"
  by (cases "(fd, n)" rule: read_fd.cases) auto

lemma read_fd_zero:
  "0 < n \<Longrightarrow> fst (read_fd fd n) = 0 \<longleftrightarrow> fd = [] \<or> (\<exists>rest. fd = RdData [] # rest)"
  by (cases "(fd, n)" rule: read_fd.cases) auto

lemma read_fd_events: "length fd \<le> length (snd (snd (read_fd fd n))) + 1"
  by (cases "(fd, n)" rule: read_fd.cases) auto

lemma read_fd_pending:
  "fst (read_fd (snd (snd (read_fd fd n))) m) = - 1 \<Longrightarrow>
     (\<exists>rest. fd = RdErr # RdErr # rest) \<or> (\<exists>bs rest. fd = RdData bs # RdErr # rest)"
  by (cases "(fd, n)" rule: read_fd.cases) (auto simp: read_fd_err split: if_splits)

lemma recv_unfold:
  assumes "read_fd fd sizeof_hdr = (k, bs, fd1)"
    and "h = bs @ drop (length bs) (swap_fields host hdr)"
    and "read_fd fd1 (hdr_size host h) = (k2, bs2, fd2)"
  shows "proto_recv_packet host fd hdr =
     (if k = - 1 \<or> k = 0 then (- 1, fd1, h, None)
      else if hdr_size host h > 0
      then (if k2 = - 1 then - 1 else 0, fd2, h,
            Some (bs2 @ drop (length bs2) (replicate (hdr_size host h + 1) 0)))
      else (0, fd1, h, None))"
  using assms by (simp add: proto_recv_packet_def Let_def)

lemma recv_ret: "fst (proto_recv_packet host fd hdr) = 0 \<or> fst (proto_recv_packet host fd hdr) = - 1"
  by (simp add: proto_recv_packet_def Let_def split: prod.splits)

lemma recv_fails_first:
  assumes "fd = [] \<or> fd = RdErr # rest \<or> fd = RdData [] # rest"
  shows "fst (proto_recv_packet host fd hdr) = - 1"
  using assms by (auto simp: proto_recv_packet_def Let_def sizeof_hdr_def split: prod.splits)

lemma recv_fails_only:
  assumes "fst (proto_recv_packet host fd hdr) = - 1"
  shows "fd = [] \<or> (\<exists>rest. fd = RdErr # rest) \<or> (\<exists>rest. fd = RdData [] # rest) \<or>
         (\<exists>bs rest. fd = RdData bs # RdErr # rest)"
proof -
  obtain k bs fd1 where r: "read_fd fd sizeof_hdr = (k, bs, fd1)"
    by (cases "read_fd fd sizeof_hdr") auto
  define h where "h = bs @ drop (length bs) (swap_fields host hdr)"
  obtain k2 bs2 fd2 where r2: "read_fd fd1 (hdr_size host h) = (k2, bs2, fd2)"
    by (cases "read_fd fd1 (hdr_size host h)") auto
  note u = recv_unfold [OF r h_def r2]
  show ?thesis
  proof (cases "k = - 1 \<or> k = 0")
    case True
    with r read_fd_err [of fd sizeof_hdr] read_fd_zero [of sizeof_hdr fd] show ?thesis
      by (auto simp: sizeof_hdr_def)
  next
    case False
    with assms u have "k2 = - 1"
      by (auto split: if_splits)
    with r r2 have "fst (read_fd (snd (snd (read_fd fd sizeof_hdr))) (hdr_size host h)) = - 1"
      by simp
    from read_fd_pending [OF this] False r show ?thesis
      by auto
  qed
qed

lemma recv_events:
  "length fd \<le> length (fst (snd (proto_recv_packet host fd hdr))) + 2"
proof -
  obtain k bs fd1 where r: "read_fd fd sizeof_hdr = (k, bs, fd1)"
    by (cases "read_fd fd sizeof_hdr") auto
  define h where "h = bs @ drop (length bs) (swap_fields host hdr)"
  obtain k2 bs2 fd2 where r2: "read_fd fd1 (hdr_size host h) = (k2, bs2, fd2)"
    by (cases "read_fd fd1 (hdr_size host h)") auto
  note u = recv_unfold [OF r h_def r2]
  from read_fd_events [of fd sizeof_hdr] r have a: "length fd \<le> length fd1 + 1" by simp
  from read_fd_events [of fd1 "hdr_size host h"] r2 have b: "length fd1 \<le> length fd2 + 1" by simp
  from a b show ?thesis
    unfolding u by simp
qed

lemma recv_data_then_eof:
  assumes "bs \<noteq> []"
  shows "fst (proto_recv_packet host [RdData bs] hdr) = 0"
proof -
  from recv_fails_only [of host "[RdData bs]" hdr] assms
  have "fst (proto_recv_packet host [RdData bs] hdr) \<noteq> - 1" by auto
  with recv_ret [of host "[RdData bs]" hdr] show ?thesis by auto
qed

lemma write_fd_err: "fst (write_fd fd buf) = - 1 \<longleftrightarrow> (\<exists>evs. fst fd = WrErr # evs)"
  by (cases "(fd, buf)" rule: write_fd.cases) auto

lemma write_fd_events: "length (fst fd) \<le> length (fst (snd (write_fd fd buf))) + 1"
  by (cases "(fd, buf)" rule: write_fd.cases) auto

lemma write_fd_pending:
  "fst (write_fd (snd (write_fd fd buf)) buf2) = - 1 \<Longrightarrow>
     (\<exists>evs. fst fd = WrErr # WrErr # evs) \<or> (\<exists>k evs. fst fd = WrAccept k # WrErr # evs)"
  by (cases "(fd, buf)" rule: write_fd.cases) (auto simp: write_fd_err)

lemma send_unfold:
  assumes "write_fd fd (take sizeof_hdr hdr) = (k, fd1)"
    and "n = ntohs host (hdr_size host hdr)"
  shows "proto_send_packet host fd hdr data =
     (if k = - 1 then Some (- 1, fd1)
      else case data of
             None \<Rightarrow> Some (0, fd1)
           | Some payload \<Rightarrow>
               if n > 0
               then (if length payload < n then None
                     else Some (if fst (write_fd fd1 (take n payload)) = - 1 then - 1 else 0,
                                snd (write_fd fd1 (take n payload))))
               else Some (0, fd1))"
  using assms
  by (simp add: proto_send_packet_def Let_def split: prod.splits option.splits)

lemma send_ret:
  "proto_send_packet host fd hdr data = Some (r, fd') \<Longrightarrow> r = 0 \<or> r = - 1"
  by (auto simp: proto_send_packet_def Let_def split: prod.splits option.splits if_splits)

lemma send_fails_first:
  "fst fd = WrErr # evs \<Longrightarrow> \<exists>fd'. proto_send_packet host fd hdr data = Some (- 1, fd')"
  by (cases fd) (auto simp: proto_send_packet_def Let_def)

lemma send_fails_only:
  assumes "proto_send_packet host fd hdr data = Some (- 1, fd')"
  shows "(\<exists>evs. fst fd = WrErr # evs) \<or> (\<exists>k evs. fst fd = WrAccept k # WrErr # evs)"
proof -
  obtain k fd1 where w: "write_fd fd (take sizeof_hdr hdr) = (k, fd1)"
    by (cases "write_fd fd (take sizeof_hdr hdr)") auto
  define n where "n = ntohs host (hdr_size host hdr)"
  note u = send_unfold [OF w n_def, of data]
  show ?thesis
  proof (cases "k = - 1")
    case True
    with w write_fd_err [of fd "take sizeof_hdr hdr"] show ?thesis by simp
  next
    case False
    with assms u obtain payload where "fst (write_fd fd1 (take n payload)) = - 1"
      by (auto split: option.splits if_splits)
    with w have "fst (write_fd (snd (write_fd fd (take sizeof_hdr hdr))) (take n payload)) = - 1"
      by simp
    from write_fd_pending [OF this] False w write_fd_err [of fd "take sizeof_hdr hdr"]
    show ?thesis by auto
  qed
qed

lemma send_events:
  assumes "proto_send_packet host fd hdr data = Some (r, fd')"
  shows "length (fst fd) \<le> length (fst fd') + 2"
proof -
  obtain k fd1 where w: "write_fd fd (take sizeof_hdr hdr) = (k, fd1)"
    by (cases "write_fd fd (take sizeof_hdr hdr)") auto
  define n where "n = ntohs host (hdr_size host hdr)"
  note u = send_unfold [OF w n_def, of data]
  from write_fd_events [of fd "take sizeof_hdr hdr"] w
  have a: "length (fst fd) \<le> length (fst fd1) + 1" by simp
  have b: "length (fst fd1) \<le> length (fst (snd (write_fd fd1 buf))) + 1" for buf
    by (rule write_fd_events)
  from assms u have "fd' = fd1 \<or> (\<exists>buf. fd' = snd (write_fd fd1 buf))"
    by (auto split: option.splits if_splits)
  then show ?thesis
  proof
    assume "fd' = fd1"
    with a show ?thesis by simp
  next
    assume "\<exists>buf. fd' = snd (write_fd fd1 buf)"
    then obtain buf where "fd' = snd (write_fd fd1 buf)" ..
    with a b [of buf] show ?thesis by simp
  qed
qed

lemma send_short_header:
  "proto_send_packet host ([WrAccept k], sent) hdr None
     = Some (0, ([], sent @ take k (take sizeof_hdr hdr)))"
  by (simp add: proto_send_packet_def Let_def)

lemma recv_payload_err:
  assumes "bs \<noteq> []" and "length bs \<le> sizeof_hdr"
    and "0 < hdr_size host (bs @ drop (length bs) (swap_fields host hdr))"
  shows "fst (proto_recv_packet host (RdData bs # RdErr # rest) hdr) = - 1"
  using assms by (simp add: proto_recv_packet_def Let_def)

lemma send_payload_err:
  assumes "0 < ntohs host (hdr_size host hdr)"
    and "ntohs host (hdr_size host hdr) \<le> length payload"
  shows "proto_send_packet host (WrAccept k # WrErr # evs, sent) hdr (Some payload)
           = Some (- 1, (evs, sent @ take k (take sizeof_hdr hdr)))"
  using assms by (simp add: proto_send_packet_def Let_def)

text \<open>The zeroed header of sixteen bytes, and the byte swaps made on it before the read.\<close>

lemma zero_hdr: "replicate 16 (0::u8) = [0, 0, 0, 0, 0, 0, 0, 0, 0, 0, 0, 0, 0, 0, 0, 0]"
  by (simp add: replicate_numeral)

lemma zero_hdr_load:
  "load16 LittleEndian [0, 0, 0, 0, 0, 0, 0, 0, 0, 0, 0, 0, 0, 0, 0, 0] 4 = 0"
  "load32 LittleEndian [0, 0, 0, 0, 0, 0, 0, 0, 0, 0, 0, 0, 0, 0, 0, 0] 8 = 0"
  "load32 LittleEndian [0, 0, 0, 0, 0, 0, 0, 0, 0, 0, 0, 0, 0, 0, 0, 0] 12 = 0"
  by (simp_all add: load16_def load32_def)

lemma zero_hdr_store:
  "store16 LittleEndian [0, 0, 0, 0, 0, 0, 0, 0, 0, 0, 0, 0, 0, 0, 0, 0] 4 0
     = [0, 0, 0, 0, 0, 0, 0, 0, 0, 0, 0, 0, 0, 0, 0, 0]"
  "store32 LittleEndian [0, 0, 0, 0, 0, 0, 0, 0, 0, 0, 0, 0, 0, 0, 0, 0] 8 0
     = [0, 0, 0, 0, 0, 0, 0, 0, 0, 0, 0, 0, 0, 0, 0, 0]"
  "store32 LittleEndian [0, 0, 0, 0, 0, 0, 0, 0, 0, 0, 0, 0, 0, 0, 0, 0] 12 0
     = [0, 0, 0, 0, 0, 0, 0, 0, 0, 0, 0, 0, 0, 0, 0, 0]"
  by (simp_all add: store16_def store32_def list_update_Cons_numeral)

lemma swap_zero: "ntohs LittleEndian 0 = 0" "ntohl LittleEndian 0 = 0"
  by (simp_all add: ntohs_def ntohl_def swap16_def swap32_def)

lemma zero_hdr_swap_fields:
  "swap_fields LittleEndian [0, 0, 0, 0, 0, 0, 0, 0, 0, 0, 0, 0, 0, 0, 0, 0]
     = [0, 0, 0, 0, 0, 0, 0, 0, 0, 0, 0, 0, 0, 0, 0, 0]"
  by (simp only: swap_fields_def Let_def set_size_def set_timestamp_sec_def
        set_timestamp_nsec_def hdr_size_def hdr_timestamp_sec_def hdr_timestamp_nsec_def
        zero_hdr_load zero_hdr_store swap_zero)

text \<open>
  Claim C4 on the code. The claim asks that short reads and writes are repeated until
  the whole header and the whole payload are transferred, and that an end of stream
  in the middle of a packet is a transport error (-1); the comment of
  \<^verbatim>\<open>proto_recv_packet\<close> promises 0 "in case of successful reception", that of
  \<^verbatim>\<open>proto_send_packet\<close> 0 "in case of successful transmission". The code makes one
  \<^verbatim>\<open>read\<close> or \<^verbatim>\<open>write\<close> call for each part and tests its result against -1 (and the
  header read against 0) only. A peer that sends three bytes of a header and closes:
  \<^verbatim>\<open>proto_recv_packet\<close> returns 0, with a header of which three bytes were received
  and no payload. A peer that sends a whole header announcing a payload and closes:
  it returns 0 again. A connection that takes four of the sixteen header bytes:
  \<^verbatim>\<open>proto_send_packet\<close> returns 0 with four bytes sent.
\<close>

theorem truncated_packet_reported_as_success:
  "proto_recv_packet LittleEndian [RdData [1, 0, 0]] (replicate 16 0)
     = (0, [], [1, 0, 0, 0, 0, 0, 0, 0, 0, 0, 0, 0, 0, 0, 0, 0], None) \<and>
   fst (proto_recv_packet LittleEndian
          [RdData [7, 0, 0, 0, 0, 5, 0, 0, 0, 0, 0, 0, 0, 0, 0, 0]] (replicate 16 0)) = 0 \<and>
   proto_send_packet LittleEndian ([WrAccept 4], [])
       [9, 0, 0, 0, 0, 0, 0, 0, 0, 0, 0, 0, 0, 0, 0, 0] None
     = Some (0, ([], [9, 0, 0, 0]))"
proof -
  have a: "proto_recv_packet LittleEndian [RdData [1, 0, 0]] (replicate 16 0)
     = (0, [], [1, 0, 0, 0, 0, 0, 0, 0, 0, 0, 0, 0, 0, 0, 0, 0], None)"
    unfolding zero_hdr
    by (simp add: proto_recv_packet_def zero_hdr_swap_fields Let_def sizeof_hdr_def
          hdr_size_def load16_def)
  have b: "fst (proto_recv_packet LittleEndian
          [RdData [7, 0, 0, 0, 0, 5, 0, 0, 0, 0, 0, 0, 0, 0, 0, 0]] (replicate 16 0)) = 0"
    by (rule recv_data_then_eof) simp
  have c: "proto_send_packet LittleEndian ([WrAccept 4], [])
       [9, 0, 0, 0, 0, 0, 0, 0, 0, 0, 0, 0, 0, 0, 0, 0] None
     = Some (0, ([], [9, 0, 0, 0]))"
    by (simp add: send_short_header sizeof_hdr_def)
  from a b c show ?thesis by (intro conjI)
qed

section \<open>Properties of the client\<close>

text \<open>
  Claim C3 on the code. A client adds invitation A (ID 0) and invitation B (ID 1),
  removes A, and adds invitation C: \<^verbatim>\<open>client_remove_invitation\<close> has decremented
  \<open>invites\<close>, so C receives ID 1 again. B and C are in the list together under the
  same ID, C's ID is not greater than B's, and a lookup of ID 1 finds B only.
\<close>

theorem invitation_id_reused:
  "(let c0 = client_create 4;
        (id_a, c1) = client_add_invitation c0 10;
        (id_b, c2) = client_add_invitation c1 11;
        (removed, c3) = client_remove_invitation c2 10;
        (id_c, c4) = client_add_invitation c3 12
    in (id_a, id_b, removed, id_c, inviteHead c4, get_invite_node_from_id c4 id_c))
   = (0, 1, 0, 1,
      [\<lparr>node_id = 1, node_invitation = 11\<rparr>, \<lparr>node_id = 1, node_invitation = 12\<rparr>],
      Some \<lparr>node_id = 1, node_invitation = 11\<rparr>)"
  by (simp add: client_create_def client_ref_def client_add_invitation_def
        client_remove_invitation_def get_invite_node_from_id_def)

lemma store16_length [simp]: "length (store16 host mem off v) = length mem"
  by (cases host) (simp_all add: store16_def)

lemma store32_length [simp]: "length (store32 host mem off v) = length mem"
  by (cases host) (simp_all add: store32_def)

lemma store16_other: "i < off \<or> off + 1 < i \<Longrightarrow> store16 host mem off v ! i = mem ! i"
  by (cases host) (auto simp: store16_def)

lemma store32_other: "i < off \<or> off + 3 < i \<Longrightarrow> store32 host mem off v ! i = mem ! i"
  by (cases host) (auto simp: store32_def)

lemma client_send_packet_stamped:
  "client_send_packet host ts fd pkt data = proto_send_packet host fd (stamped host ts pkt) data"
  by (simp add: client_send_packet_def stamped_def Let_def)

lemma stamped_length [simp]: "length (stamped host ts pkt) = length pkt"
  by (simp add: stamped_def Let_def set_size_def set_timestamp_sec_def set_timestamp_nsec_def
        split: option.splits)

lemma stamped_low: "i < 4 \<Longrightarrow> stamped host ts pkt ! i = pkt ! i"
  by (simp add: stamped_def Let_def set_size_def set_timestamp_sec_def set_timestamp_nsec_def
        store16_other store32_other split: option.splits)

lemma ack_packet:
  "\<exists>pkt. length pkt = 16 \<and> hdr_type pkt = code \<and> hdr_id pkt = 0 \<and> hdr_role pkt = 0 \<and>
     client_send_ack host ts code fd data datalen = proto_send_packet host fd pkt data"
proof -
  let ?p = "set_size host (set_role (set_id (set_type (replicate sizeof_hdr 0) code) 0) 0)
              (datalen mod 65536)"
  have l: "length ?p = 16"
    by (simp add: set_size_def set_role_def set_id_def set_type_def sizeof_hdr_def)
  have t: "?p ! 0 = code" "?p ! 1 = 0" "?p ! 2 = 0"
    by (simp_all add: set_size_def set_role_def set_id_def set_type_def sizeof_hdr_def
          store16_other)
  have "client_send_ack host ts code fd data datalen
          = proto_send_packet host fd (stamped host ts ?p) data"
    by (simp add: client_send_ack_def Let_def client_send_packet_stamped)
  moreover have "length (stamped host ts ?p) = 16" using l by simp
  moreover have "hdr_type (stamped host ts ?p) = code" "hdr_id (stamped host ts ?p) = 0"
    "hdr_role (stamped host ts ?p) = 0"
    using t by (simp_all add: hdr_type_def hdr_id_def hdr_role_def stamped_low)
  ultimately show ?thesis by blast
qed

lemma nack_packet:
  "\<exists>pkt. length pkt = 16 \<and> hdr_type pkt = code \<and> hdr_id pkt = 0 \<and> hdr_role pkt = 0 \<and>
     client_send_nack host ts code fd = proto_send_packet host fd pkt None"
proof -
  let ?p = "set_size host (set_role (set_id (set_type (replicate sizeof_hdr 0) code) 0) 0) 0"
  have l: "length ?p = 16"
    by (simp add: set_size_def set_role_def set_id_def set_type_def sizeof_hdr_def)
  have t: "?p ! 0 = code" "?p ! 1 = 0" "?p ! 2 = 0"
    by (simp_all add: set_size_def set_role_def set_id_def set_type_def sizeof_hdr_def
          store16_other)
  have "client_send_nack host ts code fd = proto_send_packet host fd (stamped host ts ?p) None"
    by (simp add: client_send_nack_def Let_def client_send_packet_stamped)
  moreover have "length (stamped host ts ?p) = 16" using l by simp
  moreover have "hdr_type (stamped host ts ?p) = code" "hdr_id (stamped host ts ?p) = 0"
    "hdr_role (stamped host ts ?p) = 0"
    using t by (simp_all add: hdr_type_def hdr_id_def hdr_role_def stamped_low)
  ultimately show ?thesis by blast
qed

lemma send_wire:
  assumes "length pkt = 16"
    and "proto_send_packet host ([], sent) pkt data = Some (r, (evs, sent'))"
  shows "take 16 (drop (length sent) sent') = pkt"
  using assms
  by (auto simp: proto_send_packet_def sizeof_hdr_def Let_def split: option.splits if_splits)


lemma wire_bytes:
  assumes "length pkt = 16"
    and "proto_send_packet host ([], sent) pkt data = Some (r, (evs, sent'))"
    and "i < 16"
  shows "sent' ! (length sent + i) = pkt ! i"
proof -
  from send_wire [OF assms(1,2)] have t: "take 16 (drop (length sent) sent') = pkt" .
  from t assms(1) have "length (take 16 (drop (length sent) sent')) = 16" by simp
  then have l: "length sent + 16 \<le> length sent'" by simp
  from assms(3) have "pkt ! i = take 16 (drop (length sent) sent') ! i" using t by simp
  also from assms(3) l have "\<dots> = sent' ! (length sent + i)" by simp
  finally show ?thesis by simp
qed

text \<open>
  Claim C9. Every packet that \<^verbatim>\<open>client_send_ack\<close> and \<^verbatim>\<open>client_send_nack\<close> hand to
  \<^verbatim>\<open>proto_send_packet\<close> is a 16-byte header of the ACK or NACK type whose \<^verbatim>\<open>id\<close> and
  \<^verbatim>\<open>role\<close> are 0, whatever the payload, its length, the clock and the host; on a
  connection that takes all bytes, the second and third byte put on the wire are 0.
  (The server sends ACK and NACK through these two functions only, also in reply to
  ACCEPT.)
\<close>

theorem ack_nack_carry_no_id:
  "(\<exists>pkt. length pkt = 16 \<and> hdr_type pkt = JEUX_ACK_PKT \<and> hdr_id pkt = 0 \<and> hdr_role pkt = 0 \<and>
      client_send_ack host ts JEUX_ACK_PKT fd data datalen = proto_send_packet host fd pkt data) \<and>
   (\<exists>pkt. length pkt = 16 \<and> hdr_type pkt = JEUX_NACK_PKT \<and> hdr_id pkt = 0 \<and> hdr_role pkt = 0 \<and>
      client_send_nack host ts JEUX_NACK_PKT fd = proto_send_packet host fd pkt None) \<and>
   (client_send_ack host ts JEUX_ACK_PKT ([], sent) data datalen = Some (r, (evs, sent')) \<longrightarrow>
      sent' ! length sent = JEUX_ACK_PKT \<and> sent' ! (length sent + 1) = 0 \<and>
      sent' ! (length sent + 2) = 0) \<and>
   (client_send_nack host ts JEUX_NACK_PKT ([], sent) = Some (r, (evs, sent')) \<longrightarrow>
      sent' ! length sent = JEUX_NACK_PKT \<and> sent' ! (length sent + 1) = 0 \<and>
      sent' ! (length sent + 2) = 0)"
proof (intro conjI impI)
  show "\<exists>pkt. length pkt = 16 \<and> hdr_type pkt = JEUX_ACK_PKT \<and> hdr_id pkt = 0 \<and> hdr_role pkt = 0 \<and>
      client_send_ack host ts JEUX_ACK_PKT fd data datalen = proto_send_packet host fd pkt data"
    by (rule ack_packet)
  show "\<exists>pkt. length pkt = 16 \<and> hdr_type pkt = JEUX_NACK_PKT \<and> hdr_id pkt = 0 \<and> hdr_role pkt = 0 \<and>
      client_send_nack host ts JEUX_NACK_PKT fd = proto_send_packet host fd pkt None"
    by (rule nack_packet)
next
  assume a: "client_send_ack host ts JEUX_ACK_PKT ([], sent) data datalen = Some (r, (evs, sent'))"
  from ack_packet [of JEUX_ACK_PKT host ts "([], sent)" data datalen] a
  obtain pkt where p: "length pkt = 16" "hdr_type pkt = JEUX_ACK_PKT" "hdr_id pkt = 0"
      "hdr_role pkt = 0"
    and s: "proto_send_packet host ([], sent) pkt data = Some (r, (evs, sent'))"
    by auto
  from wire_bytes [OF p(1) s, of 0] wire_bytes [OF p(1) s, of 1] wire_bytes [OF p(1) s, of 2] p
  show "sent' ! length sent = JEUX_ACK_PKT" "sent' ! (length sent + 1) = 0"
    "sent' ! (length sent + 2) = 0"
    by (simp_all add: hdr_type_def hdr_id_def hdr_role_def)
next
  assume a: "client_send_nack host ts JEUX_NACK_PKT ([], sent) = Some (r, (evs, sent'))"
  from nack_packet [of JEUX_NACK_PKT host ts "([], sent)"] a
  obtain pkt where p: "length pkt = 16" "hdr_type pkt = JEUX_NACK_PKT" "hdr_id pkt = 0"
      "hdr_role pkt = 0"
    and s: "proto_send_packet host ([], sent) pkt None = Some (r, (evs, sent'))"
    by auto
  from wire_bytes [OF p(1) s, of 0] wire_bytes [OF p(1) s, of 1] wire_bytes [OF p(1) s, of 2] p
  show "sent' ! length sent = JEUX_NACK_PKT" "sent' ! (length sent + 1) = 0"
    "sent' ! (length sent + 2) = 0"
    by (simp_all add: hdr_type_def hdr_id_def hdr_role_def)
qed

theorem ack_nack_carry_no_id_witness:
  "client_send_ack LittleEndian (Some (1, 2)) 9 ([], []) (Some [7, 8]) 2
     = Some (0, ([], [9, 0, 0, 0, 0, 2, 0, 0, 0, 0, 0, 1, 0, 0, 0, 2, 7, 8])) \<and>
   [9, 0, 0, 0, 0, 2, 0, 0, 0, 0, 0, 1, 0, 0, 0, 2, 7, 8 :: u8] ! 1 = 0 \<and>
   [9, 0, 0, 0, 0, 2, 0, 0, 0, 0, 0, 1, 0, 0, 0, 2, 7, 8 :: u8] ! 2 = 0"
proof -
  have e: "client_send_ack LittleEndian (Some (1, 2)) 9 ([], []) (Some [7, 8]) 2
     = Some (0, ([], [9, 0, 0, 0, 0, 2, 0, 0, 0, 0, 0, 1, 0, 0, 0, 2, 7, 8]))"
    by (simp add: client_send_ack_def client_send_packet_def proto_send_packet_def Let_def
          sizeof_hdr_def set_type_def set_id_def set_role_def set_size_def
          set_timestamp_sec_def set_timestamp_nsec_def hdr_size_def store16_def store32_def
          load16_def htons_def htonl_def ntohs_def swap16_def swap32_def
          list_update_Cons_numeral replicate_numeral)
  from ack_nack_carry_no_id [where host = LittleEndian and ts = "Some (1, 2)"
      and JEUX_ACK_PKT = 9 and sent = "[]" and data = "Some [7, 8]" and datalen = 2 and r = 0
      and evs = "[]" and sent' = "[9, 0, 0, 0, 0, 2, 0, 0, 0, 0, 0, 1, 0, 0, 0, 2, 7, 8]"] e
  show ?thesis by simp
qed

end
